theory Spec2Isabelle
  imports Complex_Main "HOL-Library.Sublist"
begin

section \<open>Mask layer: snapshot history with undo and redo\<close>

text \<open>
  The image editor keeps the brush mask on a drawing canvas and a linear history of
  snapshots of it (\<^verbatim>\<open>history: string[]\<close>, \<^verbatim>\<open>historyIndex: number\<close>,
  initially \<^verbatim>\<open>[]\<close> and \<^verbatim>\<open>-1\<close>). A snapshot is the data URL that
  \<^verbatim>\<open>toDataURL()\<close> returns; the content of the drawing canvas is identified with
  that data URL. JavaScript numbers that index the history are integers here.
\<close>

record mask_state =
  history :: "string list"
  historyIndex :: int
  drawingCanvas :: string

text \<open>\<^verbatim>\<open>xs.slice(0, e)\<close>: a negative end counts from the end of the array.\<close>

definition slice0 :: "'a list \<Rightarrow> int \<Rightarrow> 'a list" where
  "slice0 xs e =
     (if e < 0 then take (nat (max 0 (int (length xs) + e))) xs else take (nat e) xs)"

text \<open>\<^verbatim>\<open>useState([])\<close>, \<^verbatim>\<open>useState(-1)\<close>, over a canvas whose content is \<open>c\<close>.\<close>

definition initialMask :: "string \<Rightarrow> mask_state" where
  "initialMask c = \<lparr>history = [], historyIndex = -1, drawingCanvas = c\<rparr>"

text \<open>
  The effect that records the blank snapshot once an image is committed: it runs while
  the history is empty, and skips the zero-sized canvas, whose data URL is \<^verbatim>\<open>data:,\<close>.
\<close>

definition recordBlank :: "mask_state \<Rightarrow> mask_state" where
  "recordBlank s =
     (if length (history s) = 0
      then (let blankData = drawingCanvas s
            in if blankData \<noteq> ''data:,''
               then s\<lparr>history := [blankData], historyIndex := 0\<rparr>
               else s)
      else s)"

definition saveState :: "mask_state \<Rightarrow> mask_state" where
  "saveState s =
     (let newHistory = slice0 (history s) (historyIndex s + 1) @ [drawingCanvas s]
      in s\<lparr>history := newHistory, historyIndex := int (length newHistory) - 1\<rparr>)"

definition undo :: "mask_state \<Rightarrow> mask_state" where
  "undo s = (if historyIndex s > 0 then s\<lparr>historyIndex := historyIndex s - 1\<rparr> else s)"

definition redo :: "mask_state \<Rightarrow> mask_state" where
  "redo s =
     (if historyIndex s < int (length (history s)) - 1
      then s\<lparr>historyIndex := historyIndex s + 1\<rparr> else s)"

text \<open>
  \<^verbatim>\<open>history[historyIndex]\<close>: \<^verbatim>\<open>undefined\<close> outside the array.
\<close>

definition historyAt :: "mask_state \<Rightarrow> string option" where
  "historyAt s =
     (if 0 \<le> historyIndex s \<and> historyIndex s < int (length (history s))
      then Some (history s ! nat (historyIndex s)) else None)"

text \<open>
  \<^verbatim>\<open>redrawMask\<close> clears the drawing canvas (leaving the cleared content \<open>blank\<close>) and,
  when the snapshot under the cursor is truthy (defined and not the empty string),
  draws it back.
\<close>

definition redrawMask :: "string \<Rightarrow> mask_state \<Rightarrow> mask_state" where
  "redrawMask blank s =
     (case historyAt s of
        Some dataUrl \<Rightarrow>
          if dataUrl \<noteq> [] then s\<lparr>drawingCanvas := dataUrl\<rparr>
          else s\<lparr>drawingCanvas := blank\<rparr>
      | None \<Rightarrow> s\<lparr>drawingCanvas := blank\<rparr>)"

text \<open>
  The effect on \<^verbatim>\<open>[historyIndex, redrawMask]\<close>: after a handler changed the history
  or the cursor, the mask is redrawn when the cursor is not negative.
\<close>

definition redrawEffect :: "string \<Rightarrow> mask_state \<Rightarrow> mask_state" where
  "redrawEffect blank s = (if historyIndex s \<ge> 0 then redrawMask blank s else s)"

text \<open>
  The mask operations of a session. A stroke (\<^verbatim>\<open>startDrawing\<close>, \<^verbatim>\<open>draw\<close>,
  \<^verbatim>\<open>stopDrawing\<close>) leaves some content \<open>c\<close> on the drawing canvas and commits it
  with \<^verbatim>\<open>saveState\<close>; \<^verbatim>\<open>handleClearMask\<close> clears the canvas and commits.
\<close>

datatype mask_op = Stroke string | Undo | Redo | Clear

fun handler :: "string \<Rightarrow> mask_op \<Rightarrow> mask_state \<Rightarrow> mask_state" where
  "handler blank (Stroke c) s = saveState (s\<lparr>drawingCanvas := c\<rparr>)"
| "handler blank Undo s = undo s"
| "handler blank Redo s = redo s"
| "handler blank Clear s = saveState (s\<lparr>drawingCanvas := blank\<rparr>)"

definition maskStep :: "string \<Rightarrow> mask_op \<Rightarrow> mask_state \<Rightarrow> mask_state" where
  "maskStep blank op s = redrawEffect blank (handler blank op s)"

fun maskRun :: "string \<Rightarrow> mask_op list \<Rightarrow> mask_state \<Rightarrow> mask_state" where
  "maskRun blank [] s = s"
| "maskRun blank (op # ops) s = maskRun blank ops (maskStep blank op s)"

text \<open>The state of a session once the blank snapshot has been recorded.\<close>

definition startedMask :: "string \<Rightarrow> mask_state" where
  "startedMask blank = recordBlank (initialMask blank)"

text \<open>The cursor invariant of the data model.\<close>

definition maskInv :: "string \<Rightarrow> mask_state \<Rightarrow> bool" where
  "maskInv blank s \<longleftrightarrow>
     0 \<le> historyIndex s \<and> historyIndex s < int (length (history s)) \<and>
     history s ! 0 = blank"

section \<open>Remote image service: generate, edit, enhance, remove background\<close>

text \<open>
  The service module wraps one remote call, \<^verbatim>\<open>ai.models.generateContent\<close>. The remote
  call is a parameter \<open>api\<close> of the model: it either throws a value or returns a response.
\<close>

record ImageData =
  mimeType :: string
  data :: string

datatype Role = USER | MODEL | ERROR

datatype AspectRatio = Ratio_1_1 | Ratio_16_9 | Ratio_9_16

fun aspectRatioText :: "AspectRatio \<Rightarrow> string" where
  "aspectRatioText Ratio_1_1 = ''1:1''"
| "aspectRatioText Ratio_16_9 = ''16:9''"
| "aspectRatioText Ratio_9_16 = ''9:16''"

datatype GenerationStyle =
  Default | Photorealistic | Anime | Illustration | Aquarela | Cyberpunk | Fantasia
  | PixelArt | Minimalista | Modelo3D | Isometrico | ArteAbstrata | ArteVintage | ArteNoir

fun stylePrefix :: "GenerationStyle \<Rightarrow> string" where
  "stylePrefix Photorealistic = ''A photorealistic image of''"
| "stylePrefix Anime = ''An anime style image of''"
| "stylePrefix Illustration = ''An illustration of''"
| "stylePrefix Aquarela = ''A watercolor painting of''"
| "stylePrefix Cyberpunk = ''A cyberpunk style image of''"
| "stylePrefix Fantasia = ''A fantasy style image of''"
| "stylePrefix PixelArt = ''Pixel art of''"
| "stylePrefix Minimalista = ''A minimalist line art drawing of''"
| "stylePrefix Modelo3D = ''A 3D model render of''"
| "stylePrefix Isometrico = ''An isometric style image of''"
| "stylePrefix ArteAbstrata = ''An abstract painting representing''"
| "stylePrefix ArteVintage = ''A vintage photograph of''"
| "stylePrefix ArteNoir = ''A film noir style image of''"
| "stylePrefix Default = ''undefined''"

text \<open>The fields of a conversation message that the service reads.\<close>

record Message =
  msg_id :: string
  msg_role :: Role
  msg_text :: "string option"

text \<open>The request sent to the service: a model name and a list of contents.\<close>

datatype RequestPart = TextPart string | InlineDataPart ImageData

record Content =
  role :: "string option"
  parts :: "RequestPart list"

record Request =
  model :: string
  contents :: "Content list"

text \<open>
  The response: candidates, each with optional content parts and an optional finish
  reason, and the text accessor \<^verbatim>\<open>response.text\<close>.
\<close>

record ResponsePart =
  inlineData :: "ImageData option"
  partText :: "string option"

record Candidate =
  contentParts :: "ResponsePart list option"
  finishReason :: "string option"

record Response =
  candidates :: "Candidate list option"
  responseText :: "string option"

text \<open>
  A thrown JavaScript value, as far as the handlers look at it: the message of its
  \<^verbatim>\<open>error\<close> property when it has the shape of an API error, and its own message when
  it is an \<^verbatim>\<open>Error\<close> instance.
\<close>

datatype thrown = Thrown (apiErrorMessage: "string option") (errorMessage: "string option")

definition newError :: "string \<Rightarrow> thrown" where
  "newError m = Thrown None (Some m)"

definition editModel :: string where
  "editModel = ''gemini-2.5-flash-image''"

definition generationModelWithMemory :: string where
  "generationModelWithMemory = ''gemini-2.5-flash-image''"

fun mapRoleForGemini :: "Role \<Rightarrow> string" where
  "mapRoleForGemini USER = ''user''"
| "mapRoleForGemini MODEL = ''model''"
| "mapRoleForGemini ERROR = ''user''"

text \<open>
  A character of a string of the model is a code unit below 256. Of the white space and
  line terminator characters that \<^verbatim>\<open>String.prototype.trim\<close> strips, the ones in that
  range are tab, line feed, vertical tab, form feed, carriage return, space and the
  no-break space U+00A0.
\<close>

definition isWhiteSpace :: "char \<Rightarrow> bool" where
  "isWhiteSpace c \<longleftrightarrow>
     c \<in> {CHR 0x09, CHR 0x0A, CHR 0x0B, CHR 0x0C, CHR 0x0D, CHR 0x20, CHR 0xA0}"

definition trim :: "string \<Rightarrow> string" where
  "trim s = rev (dropWhile isWhiteSpace (rev (dropWhile isWhiteSpace s)))"

text \<open>\<^verbatim>\<open>response.candidates?.[0]\<close>.\<close>

definition firstCandidate :: "Response \<Rightarrow> Candidate option" where
  "firstCandidate r =
     (case candidates r of None \<Rightarrow> None | Some [] \<Rightarrow> None | Some (c # _) \<Rightarrow> Some c)"

text \<open>\<^verbatim>\<open>response.candidates?.[0]?.content?.parts || []\<close>.\<close>

definition responseParts :: "Response \<Rightarrow> ResponsePart list" where
  "responseParts r =
     (case firstCandidate r of
        None \<Rightarrow> []
      | Some c \<Rightarrow> (case contentParts c of None \<Rightarrow> [] | Some ps \<Rightarrow> ps))"

text \<open>The loop over the parts: return at the first part that carries inline data.\<close>

fun firstImage :: "ResponsePart list \<Rightarrow> ImageData option" where
  "firstImage [] = None"
| "firstImage (p # ps) =
     (case inlineData p of Some d \<Rightarrow> Some \<lparr>mimeType = mimeType d, data = data d\<rparr>
      | None \<Rightarrow> firstImage ps)"

definition responseFinishReason :: "Response \<Rightarrow> string option" where
  "responseFinishReason r =
     (case firstCandidate r of None \<Rightarrow> None | Some c \<Rightarrow> finishReason c)"

text \<open>
  The message built when no image was found, from the default message of the operation:
  a truthy finish reason other than \<^verbatim>\<open>STOP\<close> replaces the default, and a response
  text that is not blank is appended in quotes.
\<close>

definition noImageMessage :: \<open>string \<Rightarrow> Response \<Rightarrow> string\<close> where
  \<open>noImageMessage defaultMessage r =
     (let errorMessage1 =
            (case responseFinishReason r of
               Some reason \<Rightarrow>
                 if reason \<noteq> [] \<and> reason \<noteq> ''STOP''
                 then ''Image generation failed with reason: '' @ reason @ ''.''
                 else defaultMessage
             | None \<Rightarrow> defaultMessage)
      in case responseText r of
           Some t \<Rightarrow>
             if t \<noteq> [] \<and> trim t \<noteq> []
             then errorMessage1 @ '' The model responded with: "'' @ trim t @ ''"''
             else errorMessage1
         | None \<Rightarrow> errorMessage1)\<close>

text \<open>
  The \<^verbatim>\<open>catch\<close> block of \<^verbatim>\<open>generateImage\<close> and \<^verbatim>\<open>editImage\<close>: the message of an
  API error first, then the message of an \<^verbatim>\<open>Error\<close> instance, then the fallback.
\<close>

definition rethrow :: "string \<Rightarrow> thrown \<Rightarrow> thrown" where
  "rethrow fallback e =
     (case apiErrorMessage e of
        Some m \<Rightarrow> newError m
      | None \<Rightarrow> (case errorMessage e of Some m \<Rightarrow> newError m | None \<Rightarrow> newError fallback))"

text \<open>The part of both operations after the remote call returned or threw.\<close>

definition imageOrThrow ::
  "string \<Rightarrow> string \<Rightarrow> thrown + Response \<Rightarrow> thrown + ImageData" where
  "imageOrThrow defaultMessage fallback outcome =
     (case outcome of
        Inl e \<Rightarrow> Inl (rethrow fallback e)
      | Inr response \<Rightarrow>
          (case firstImage (responseParts response) of
             Some img \<Rightarrow> Inr img
           | None \<Rightarrow> Inl (rethrow fallback (newError (noImageMessage defaultMessage response)))))"

definition generateDefaultMessage :: string where
  "generateDefaultMessage =
     ''The AI did not return an image. This might be due to a safety filter or an issue with the prompt. Please try rephrasing.''"

definition generateFallback :: string where
  "generateFallback =
     ''Failed to generate image due to an unexpected error. Please try again.''"

definition finalPromptOf ::
  "string \<Rightarrow> AspectRatio \<Rightarrow> GenerationStyle \<Rightarrow> string \<Rightarrow> string" where
  "finalPromptOf prompt aspectRatio style negativePrompt =
     (let p1 = (if style \<noteq> Default then stylePrefix style @ '' '' @ prompt else prompt);
          p2 = p1 @ [CHR 0x0A, CHR 0x0A] @ ''- Desired aspect ratio: '' @
               aspectRatioText aspectRatio
      in if trim negativePrompt \<noteq> []
         then p2 @ [CHR 0x0A] @ ''- Negative prompt (what to avoid): '' @ trim negativePrompt
         else p2)"

definition historyContents :: "Message list \<Rightarrow> Content list" where
  "historyContents msgs =
     map (\<lambda>msg. \<lparr>role = Some (mapRoleForGemini (msg_role msg)),
                  parts = [TextPart (the (msg_text msg))]\<rparr>)
       (filter (\<lambda>msg. (msg_role msg = USER \<or> msg_role msg = MODEL) \<and>
                       (case msg_text msg of Some t \<Rightarrow> t \<noteq> [] | None \<Rightarrow> False) \<and>
                       msg_id msg \<noteq> ''initial'') msgs)"

definition generateRequest ::
  "string \<Rightarrow> AspectRatio \<Rightarrow> GenerationStyle \<Rightarrow> string \<Rightarrow> Message list \<Rightarrow> Request" where
  "generateRequest prompt aspectRatio style negativePrompt msgs =
     (let finalPrompt = finalPromptOf prompt aspectRatio style negativePrompt;
          cs = historyContents msgs @ [\<lparr>role = Some ''user'', parts = [TextPart finalPrompt]\<rparr>]
      in \<lparr>model = generationModelWithMemory, contents = cs\<rparr>)"

definition generateImage ::
  "(Request \<Rightarrow> thrown + Response) \<Rightarrow> string \<Rightarrow> AspectRatio \<Rightarrow> GenerationStyle \<Rightarrow> string \<Rightarrow>
   Message list \<Rightarrow> thrown + ImageData" where
  "generateImage api prompt aspectRatio style negativePrompt msgs =
     imageOrThrow generateDefaultMessage generateFallback
       (api (generateRequest prompt aspectRatio style negativePrompt msgs))"

definition editDefaultMessage :: string where
  "editDefaultMessage = ''No edited image data found in the response.''"

definition editFallback :: string where
  "editFallback = ''Failed to edit image. An unknown error occurred.''"

definition editRequest :: "string \<Rightarrow> ImageData \<Rightarrow> ImageData option \<Rightarrow> Request" where
  "editRequest prompt img maskImg =
     (let ps = [InlineDataPart \<lparr>mimeType = mimeType img, data = data img\<rparr>,
                TextPart prompt];
          ps' = (case maskImg of
                   Some m \<Rightarrow> ps @ [InlineDataPart \<lparr>mimeType = mimeType m, data = data m\<rparr>]
                 | None \<Rightarrow> ps)
      in \<lparr>model = editModel, contents = [\<lparr>role = None, parts = ps'\<rparr>]\<rparr>)"

definition editImage ::
  "(Request \<Rightarrow> thrown + Response) \<Rightarrow> string \<Rightarrow> ImageData \<Rightarrow> ImageData option \<Rightarrow>
   thrown + ImageData" where
  "editImage api prompt img maskImg =
     imageOrThrow editDefaultMessage editFallback (api (editRequest prompt img maskImg))"

definition ENHANCE_PROMPT :: string where
  "ENHANCE_PROMPT =
     ''Enhance this image, improving quality, details, and clarity. Make it sharper and more vibrant without altering the main subject.''"

definition enhanceImage ::
  "(Request \<Rightarrow> thrown + Response) \<Rightarrow> ImageData \<Rightarrow> thrown + ImageData" where
  "enhanceImage api img =
     (case editImage api ENHANCE_PROMPT img None of
        Inr result \<Rightarrow> Inr result
      | Inl e \<Rightarrow>
          (case errorMessage e of
             Some m \<Rightarrow> Inl (newError (''Enhancement failed: '' @ m))
           | None \<Rightarrow>
               Inl (newError ''Failed to enhance image due to an unexpected error.'')))"

definition REMOVE_BACKGROUND_PROMPT :: string where
  "REMOVE_BACKGROUND_PROMPT =
     ''Remove the background of this image, making it transparent. The main subject should be preserved perfectly. The output must be a PNG with a transparent background.''"

definition removeBackground ::
  "(Request \<Rightarrow> thrown + Response) \<Rightarrow> ImageData \<Rightarrow> thrown + ImageData" where
  "removeBackground api img =
     (case editImage api REMOVE_BACKGROUND_PROMPT img None of
        Inr result \<Rightarrow> Inr result
      | Inl e \<Rightarrow>
          (case errorMessage e of
             Some m \<Rightarrow> Inl (newError (''Background removal failed: '' @ m))
           | None \<Rightarrow>
               Inl (newError ''Failed to remove image background due to an unexpected error.'')))"

text \<open>An example response: no image part, finish reason \<^verbatim>\<open>SAFETY\<close>, some text.\<close>

definition safetyResponse :: Response where
  "safetyResponse =
     \<lparr>candidates = Some [\<lparr>contentParts = Some [\<lparr>inlineData = None, partText = Some ''no''\<rparr>],
                           finishReason = Some ''SAFETY''\<rparr>],
      responseText = Some '' no ''\<rparr>"

text \<open>
  A service that answers every request with the response \<open>r\<close>, an image, a response
  whose first candidate carries a text part and then the image, and a response whose
  image part is in the second candidate and whose text is one space.
\<close>

definition respondWith :: "Response \<Rightarrow> Request \<Rightarrow> thrown + Response" where
  "respondWith r request = Inr r"

definition pngExample :: ImageData where
  "pngExample = \<lparr>mimeType = ''image/png'', data = ''iVBORw0KGgo=''\<rparr>"

definition imageResponse :: Response where
  "imageResponse =
     \<lparr>candidates = Some [\<lparr>contentParts = Some [\<lparr>inlineData = None, partText = Some ''here''\<rparr>,
                                                   \<lparr>inlineData = Some pngExample, partText = None\<rparr>],
                           finishReason = Some ''STOP''\<rparr>],
      responseText = Some ''here''\<rparr>"

definition secondCandidateResponse :: Response where
  "secondCandidateResponse =
     \<lparr>candidates = Some [\<lparr>contentParts = Some [\<lparr>inlineData = None, partText = Some '' ''\<rparr>],
                           finishReason = Some ''STOP''\<rparr>,
                         \<lparr>contentParts = Some [\<lparr>inlineData = Some pngExample, partText = None\<rparr>],
                           finishReason = Some ''STOP''\<rparr>],
      responseText = Some '' ''\<rparr>"

section \<open>Local message store\<close>

text \<open>
  The object store \<^verbatim>\<open>messages\<close> of the browser database has the key path
  \<^verbatim>\<open>id\<close> with \<^verbatim>\<open>autoIncrement\<close> and an index on \<^verbatim>\<open>sessionId\<close>. It is modelled
  by its key generator and its records in ascending key order.
\<close>

record GenerationParams =
  gp_aspectRatio :: AspectRatio
  gp_style :: GenerationStyle
  gp_negativePrompt :: string

text \<open>A message without its \<^verbatim>\<open>id\<close> (\<^verbatim>\<open>Omit<Message, 'id'>\<close>).\<close>

record MessageData =
  md_role :: Role
  md_text :: "string option"
  md_imageUrl :: "string option"
  md_imageMimeType :: "string option"
  md_generationParams :: "GenerationParams option"

record StoredMessage =
  sm_id :: nat
  sessionId :: string
  sm_role :: Role
  sm_text :: "string option"
  sm_imageUrl :: "string option"
  sm_imageMimeType :: "string option"
  timestamp :: int
  sm_generationParams :: "GenerationParams option"

record MessageStore =
  keyGenerator :: nat
  records :: "StoredMessage list"

text \<open>A fresh store: no records, and the key generator at 1.\<close>

definition emptyStore :: MessageStore where
  "emptyStore = \<lparr>keyGenerator = 1, records = []\<rparr>"

text \<open>
  \<^verbatim>\<open>addMessageToDB\<close>: the stored object is the message with the session identifier and
  the current time \<open>now\<close>; \<^verbatim>\<open>store.add\<close> gives it the next generated key, which is the
  result.
\<close>

definition addMessageToDB ::
  "MessageData \<Rightarrow> string \<Rightarrow> int \<Rightarrow> MessageStore \<Rightarrow> nat \<times> MessageStore" where
  "addMessageToDB message sid now st =
     (let key = keyGenerator st;
          storedMessage =
            \<lparr>sm_id = key, sessionId = sid, sm_role = md_role message,
             sm_text = md_text message, sm_imageUrl = md_imageUrl message,
             sm_imageMimeType = md_imageMimeType message, timestamp = now,
             sm_generationParams = md_generationParams message\<rparr>
      in (key, \<lparr>keyGenerator = key + 1, records = records st @ [storedMessage]\<rparr>))"

text \<open>
  \<^verbatim>\<open>getAllMessagesFromDB\<close>: the records of the index under the session identifier (in
  key order), sorted by time stamp with the stable array sort.
\<close>

definition getAllMessagesFromDB :: "string \<Rightarrow> MessageStore \<Rightarrow> StoredMessage list" where
  "getAllMessagesFromDB sid st =
     sort_key timestamp (filter (\<lambda>m. sessionId m = sid) (records st))"

text \<open>\<^verbatim>\<open>store.delete(key)\<close> and \<^verbatim>\<open>deleteMessageFromDB\<close>.\<close>

definition storeDelete :: "nat \<Rightarrow> MessageStore \<Rightarrow> MessageStore" where
  "storeDelete key st = st\<lparr>records := filter (\<lambda>m. sm_id m \<noteq> key) (records st)\<rparr>"

definition deleteMessageFromDB :: "nat \<Rightarrow> MessageStore \<Rightarrow> MessageStore" where
  "deleteMessageFromDB key st = storeDelete key st"

text \<open>
  \<^verbatim>\<open>clearAllMessages\<close>: a key cursor over the index entries of the session; each step
  deletes the record of the cursor's primary key and continues.
\<close>

fun clearCursor :: "nat list \<Rightarrow> MessageStore \<Rightarrow> MessageStore" where
  "clearCursor [] st = st"
| "clearCursor (primaryKey # rest) st = clearCursor rest (storeDelete primaryKey st)"

definition clearAllMessages :: "string \<Rightarrow> MessageStore \<Rightarrow> MessageStore" where
  "clearAllMessages sid st =
     clearCursor (map sm_id (filter (\<lambda>m. sessionId m = sid) (records st))) st"

text \<open>The operations of the store, and a run of a sequence of them.\<close>

datatype store_op =
  AddMessage MessageData string int
  | DeleteMessage nat
  | ClearAll string

fun storeStep :: "store_op \<Rightarrow> MessageStore \<Rightarrow> MessageStore" where
  "storeStep (AddMessage message sid now) st = snd (addMessageToDB message sid now st)"
| "storeStep (DeleteMessage key) st = deleteMessageFromDB key st"
| "storeStep (ClearAll sid) st = clearAllMessages sid st"

fun storeRun :: "store_op list \<Rightarrow> MessageStore \<Rightarrow> MessageStore" where
  "storeRun [] st = st"
| "storeRun (x # xs) st = storeRun xs (storeStep x st)"

text \<open>An example message.\<close>

definition helloMessage :: MessageData where
  "helloMessage =
     \<lparr>md_role = USER, md_text = Some ''hello'', md_imageUrl = None,
      md_imageMimeType = None, md_generationParams = None\<rparr>"

text \<open>
  What the key generator guarantees of a store: the keys of the records are distinct and
  below the generator's current number.
\<close>

definition storeWf :: "MessageStore \<Rightarrow> bool" where
  "storeWf st \<longleftrightarrow>
     distinct (map sm_id (records st)) \<and> (\<forall>m\<in>set (records st). sm_id m < keyGenerator st)"

section \<open>Image viewer and image editor: state and geometry\<close>

text \<open>
  JavaScript numbers that carry coordinates, sizes, scales and angles are modelled as
  real numbers. Rounding of the floating point arithmetic is modelled where a property
  is about the size of a computed number, in the layout of \<^verbatim>\<open>renderCanvas\<close>, and not
  elsewhere. Values that only come from sliders with step 1 (brightness, contrast,
  saturation) are integers.
\<close>

subsection \<open>Image viewer: zoom with the mouse wheel\<close>

record ViewerState =
  scale :: real
  position :: "real \<times> real"

text \<open>
  A wheel event: \<^verbatim>\<open>deltaY\<close>, \<^verbatim>\<open>clientX\<close>, \<^verbatim>\<open>clientY\<close>, and the corner
  (\<^verbatim>\<open>left\<close>, \<^verbatim>\<open>top\<close>) of the bounding rectangle of the image container when
  \<^verbatim>\<open>imageContainerRef.current\<close> is set.
\<close>

record WheelEvent =
  deltaY :: real
  clientX :: real
  clientY :: real
  containerRect :: "(real \<times> real) option"

definition newScaleOf :: "WheelEvent \<Rightarrow> ViewerState \<Rightarrow> real" where
  "newScaleOf e st =
     (let delta = (if deltaY e > 0 then -1 else 1 :: real);
          zoomIntensity = 0.2
      in min (max (scale st + delta * zoomIntensity * scale st) 0.1) 8)"

definition handleWheel :: "WheelEvent \<Rightarrow> ViewerState \<Rightarrow> ViewerState" where
  "handleWheel e st =
     (let newScale = newScaleOf e st
      in case containerRect e of
           None \<Rightarrow> st
         | Some (rectLeft, rectTop) \<Rightarrow>
             (let mouseX = clientX e - rectLeft;
                  mouseY = clientY e - rectTop;
                  pointX = (mouseX - fst (position st)) / scale st;
                  pointY = (mouseY - snd (position st)) / scale st;
                  newX = mouseX - pointX * newScale;
                  newY = mouseY - pointY * newScale
              in \<lparr>scale = newScale, position = (newX, newY)\<rparr>))"

text \<open>
  What the page shows. The container is a flex box that centres the image
  (\<^verbatim>\<open>flex items-center justify-center\<close>), and the image carries the style
  \<^verbatim>\<open>transform: translate(position) scale(scale)\<close> with no \<^verbatim>\<open>transform-origin\<close>, so
  the transform is taken about the centre of the image's box. With points of the image
  measured from the corner of its box, of size \<open>imageSize\<close>, and points of the page from
  the corner of the container, of size \<open>containerSize\<close> (as the handler measures the
  mouse), the image point \<open>p\<close> is shown at
  container centre + position + scale * (\<open>p\<close> - image centre).
\<close>

definition pageShownAt ::
  "real \<times> real \<Rightarrow> real \<times> real \<Rightarrow> ViewerState \<Rightarrow> real \<times> real \<Rightarrow> real \<times> real" where
  "pageShownAt containerSize imageSize st p =
     (fst containerSize / 2 + fst (position st) + scale st * (fst p - fst imageSize / 2),
      snd containerSize / 2 + snd (position st) + scale st * (snd p - snd imageSize / 2))"

text \<open>The image point that the page shows at \<open>m\<close>.\<close>

definition pagePointUnder ::
  "real \<times> real \<Rightarrow> real \<times> real \<Rightarrow> ViewerState \<Rightarrow> real \<times> real \<Rightarrow> real \<times> real" where
  "pagePointUnder containerSize imageSize st m =
     (fst imageSize / 2 + (fst m - fst containerSize / 2 - fst (position st)) / scale st,
      snd imageSize / 2 + (snd m - snd containerSize / 2 - snd (position st)) / scale st)"

subsection \<open>Image editor: crop box\<close>

datatype CropHandle = Move | NW | N | NE | E | SE | S | SW | W

fun handleName :: "CropHandle \<Rightarrow> string" where
  "handleName Move = ''move''"
| "handleName NW = ''nw''"
| "handleName N = ''n''"
| "handleName NE = ''ne''"
| "handleName E = ''e''"
| "handleName SE = ''se''"
| "handleName S = ''s''"
| "handleName SW = ''sw''"
| "handleName W = ''w''"

text \<open>\<^verbatim>\<open>draggingHandle.includes(c)\<close> for a one-character string \<open>c\<close>.\<close>

definition handleIncludes :: "CropHandle \<Rightarrow> char \<Rightarrow> bool" where
  "handleIncludes h c \<longleftrightarrow> c \<in> set (handleName h)"

record CropBox =
  cb_x :: real
  cb_y :: real
  cb_width :: real
  cb_height :: real




text \<open>
  An example: the viewer as it opens, at scale 1 and position (0, 0), and a wheel step
  towards the user with the mouse at (500, 400), the centre of a container of size
  1000 by 800 whose corner is the corner of the page.
\<close>

definition viewerExample :: ViewerState where
  "viewerExample = \<lparr>scale = 1, position = (0, 0)\<rparr>"

definition wheelAtCentre :: WheelEvent where
  "wheelAtCentre = \<lparr>deltaY = -1, clientX = 500, clientY = 400, containerRect = Some (0, 0)\<rparr>"

subsection \<open>Image editor: state\<close>

text \<open>
  A decoded image (\<^verbatim>\<open>HTMLImageElement\<close>): its natural size and its content, a
  function from a point of the image plane to the colour there, \<open>None\<close> where nothing is
  painted. The type \<open>'c\<close> of colours is left open.
\<close>

record 'c Raster =
  naturalWidth :: nat
  naturalHeight :: nat
  pixelAt :: "real \<times> real \<Rightarrow> 'c option"

text \<open>
  The state of the editor that the transform, adjustment, crop and viewport code reads
  and writes. \<open>baseCanvasWidth\<close> and \<open>baseCanvasHeight\<close> are the size of the display
  canvas (\<^verbatim>\<open>baseCanvasRef.current\<close>).
\<close>

record 'c EditorState =
  committedImage :: "'c Raster option"
  brightness :: int
  contrast :: int
  saturation :: int
  rotation :: real
  uniformScale :: real
  flipScale :: "real \<times> real"
  activeFilter :: string
  isCropping :: bool
  cropBox :: "CropBox option"
  draggingHandle :: "CropHandle option"
  dragStartPos :: "real \<times> real"
  zoom :: real
  panOffset :: "real \<times> real"
  baseCanvasWidth :: nat
  baseCanvasHeight :: nat

definition resetTransformsAndAdjustments :: "'c EditorState \<Rightarrow> 'c EditorState" where
  "resetTransformsAndAdjustments st =
     st\<lparr>brightness := 100, contrast := 100, saturation := 100, rotation := 0,
        uniformScale := 1, flipScale := (1, 1), isCropping := False, cropBox := None,
        activeFilter := ''none''\<rparr>"


subsection \<open>Double precision arithmetic\<close>

text \<open>
  The numbers of the layout are doubles. \<open>fl x\<close> is the double nearest to the real
  number \<open>x\<close>, with ties to the even significand: \<open>x\<close> is rounded to a multiple of
  \<open>2\<close> to the power of its binary exponent minus 52. An arithmetic operation of the code
  is the exact operation followed by \<open>fl\<close>; \<^verbatim>\<open>Math.abs\<close> and \<^verbatim>\<open>Math.min\<close> are
  exact. The exponent range is not bounded: overflow and the subnormal numbers, which
  are far from the sizes of images and containers, and the values NaN and infinity are
  not modelled.
\<close>

definition roundEven :: "real \<Rightarrow> int" where
  "roundEven y =
     (let f = \<lfloor>y\<rfloor>;
          d = y - of_int f
      in if d < 1 / 2 then f
         else if 1 / 2 < d then f + 1
         else if even f then f else f + 1)"

definition fl :: "real \<Rightarrow> real" where
  "fl x =
     (if x = 0 then 0
      else (let s = 2 powr (of_int \<lfloor>log 2 \<bar>x\<bar>\<rfloor> - 52)
            in of_int (roundEven (x / s)) * s))"

text \<open>
  \<^verbatim>\<open>Math.cos\<close> and \<^verbatim>\<open>Math.sin\<close> are the platform's and are parameters of the
  layout. For the examples they are the correctly rounded functions.
\<close>

definition roundedCos :: "real \<Rightarrow> real" where
  "roundedCos x = fl (cos x)"

definition roundedSin :: "real \<Rightarrow> real" where
  "roundedSin x = fl (sin x)"

subsection \<open>Image editor: fitting the rotated image into the container\<close>

record RenderLayout =
  rotatedWidth :: real
  rotatedHeight :: real
  displayScale :: real
  canvasWidth :: real
  canvasHeight :: real

text \<open>
  The layout part of \<^verbatim>\<open>renderCanvas\<close> for an image of natural size \<open>(nw, nh)\<close> in a
  container of size \<open>(containerWidth, containerHeight)\<close>, in double arithmetic;
  \<^verbatim>\<open>Math.PI\<close> is the double nearest to \<open>pi\<close>. It returns early when a rotated extent
  is zero.
\<close>

definition renderLayout ::
  "(real \<Rightarrow> real) \<Rightarrow> (real \<Rightarrow> real) \<Rightarrow> nat \<Rightarrow> nat \<Rightarrow> real \<Rightarrow> real \<Rightarrow> real \<Rightarrow> real \<Rightarrow>
   RenderLayout option" where
  "renderLayout mathCos mathSin nw nh rot uscale containerWidth containerHeight =
     (let rad = fl (fl (rot * fl pi) / 180);
          absCos = \<bar>mathCos rad\<bar>;
          absSin = \<bar>mathSin rad\<bar>;
          imgWidth = fl (real nw * uscale);
          imgHeight = fl (real nh * uscale);
          rotatedWidth = fl (fl (imgWidth * absCos) + fl (imgHeight * absSin));
          rotatedHeight = fl (fl (imgWidth * absSin) + fl (imgHeight * absCos));
          maxWidth = fl (containerWidth - 40);
          maxHeight = fl (containerHeight - 40)
      in if rotatedWidth = 0 \<or> rotatedHeight = 0 then None
         else (let displayScale =
                     min (fl (maxWidth / rotatedWidth)) (fl (maxHeight / rotatedHeight))
               in Some \<lparr>rotatedWidth = rotatedWidth, rotatedHeight = rotatedHeight,
                        displayScale = displayScale,
                        canvasWidth = fl (rotatedWidth * displayScale),
                        canvasHeight = fl (rotatedHeight * displayScale)\<rparr>))"


subsection \<open>The 2D canvas\<close>

text \<open>
  The drawing calls of the editor are interpreted as the canvas interface defines them,
  over ideal pictures: a picture gives every point of the plane its colour, or \<open>None\<close>
  where nothing is painted. The current transformation matrix
  \<open>(a, b, c, d, e, f)\<close> maps \<open>(x, y)\<close> to \<open>(a x + c y + e, b x + d y + f)\<close>, and
  \<^verbatim>\<open>translate\<close>, \<^verbatim>\<open>rotate\<close> and \<^verbatim>\<open>scale\<close> multiply it from the right.
  Resampling, colour depth and the PNG encoding of \<^verbatim>\<open>toDataURL\<close> are not modelled: an
  image made from a canvas has the canvas's size and picture.
\<close>

record Matrix =
  m_a :: real
  m_b :: real
  m_c :: real
  m_d :: real
  m_e :: real
  m_f :: real

definition identityMatrix :: Matrix where
  "identityMatrix = \<lparr>m_a = 1, m_b = 0, m_c = 0, m_d = 1, m_e = 0, m_f = 0\<rparr>"

definition applyMatrix :: "Matrix \<Rightarrow> real \<times> real \<Rightarrow> real \<times> real" where
  "applyMatrix M p =
     (m_a M * fst p + m_c M * snd p + m_e M, m_b M * fst p + m_d M * snd p + m_f M)"

text \<open>The point that a matrix maps to \<open>p\<close>; there is none when the matrix is singular.\<close>

definition unapplyMatrix :: "Matrix \<Rightarrow> real \<times> real \<Rightarrow> (real \<times> real) option" where
  "unapplyMatrix M p =
     (let det = m_a M * m_d M - m_b M * m_c M;
          x = fst p - m_e M;
          y = snd p - m_f M
      in if det = 0 then None
         else Some ((m_d M * x - m_c M * y) / det, (m_a M * y - m_b M * x) / det))"

definition ctxTranslate :: "real \<Rightarrow> real \<Rightarrow> Matrix \<Rightarrow> Matrix" where
  "ctxTranslate tx ty M =
     M\<lparr>m_e := m_a M * tx + m_c M * ty + m_e M, m_f := m_b M * tx + m_d M * ty + m_f M\<rparr>"

definition ctxScale :: "real \<Rightarrow> real \<Rightarrow> Matrix \<Rightarrow> Matrix" where
  "ctxScale sx sy M =
     M\<lparr>m_a := m_a M * sx, m_b := m_b M * sx, m_c := m_c M * sy, m_d := m_d M * sy\<rparr>"

definition ctxRotate :: "real \<Rightarrow> Matrix \<Rightarrow> Matrix" where
  "ctxRotate angle M =
     M\<lparr>m_a := m_a M * cos angle + m_c M * sin angle,
       m_b := m_b M * cos angle + m_d M * sin angle,
       m_c := m_c M * cos angle - m_a M * sin angle,
       m_d := m_d M * cos angle - m_b M * sin angle\<rparr>"

text \<open>
  \<^verbatim>\<open>drawImage(img, sx, sy, sw, sh, dx, dy, dw, dh)\<close> on an empty canvas, under the
  matrix \<open>M\<close> and the colour filter \<open>F\<close>: the source rectangle of the image is painted
  onto the destination rectangle, and the destination rectangle is placed by \<open>M\<close>.
  Nothing is painted when a rectangle has a zero extent or \<open>M\<close> is singular, and parts of
  the source rectangle outside the image paint nothing.
\<close>

definition drawImageRect ::
  "('c \<Rightarrow> 'c) \<Rightarrow> Matrix \<Rightarrow> 'c Raster \<Rightarrow> real \<Rightarrow> real \<Rightarrow> real \<Rightarrow> real \<Rightarrow>
   real \<Rightarrow> real \<Rightarrow> real \<Rightarrow> real \<Rightarrow> real \<times> real \<Rightarrow> 'c option" where
  "drawImageRect F M img sx sy sw sh dx dy dw dh p =
     (case unapplyMatrix M p of
        None \<Rightarrow> None
      | Some q \<Rightarrow>
          if sw = 0 \<or> sh = 0 \<or> dw = 0 \<or> dh = 0 then None
          else (let s = (fst q - dx) / dw;
                    t = (snd q - dy) / dh;
                    u = sx + s * sw;
                    v = sy + t * sh
                in if 0 \<le> s \<and> s < 1 \<and> 0 \<le> t \<and> t < 1 \<and>
                      0 \<le> u \<and> u < real (naturalWidth img) \<and>
                      0 \<le> v \<and> v < real (naturalHeight img)
                   then map_option F (pixelAt img (u, v))
                   else None))"

text \<open>\<^verbatim>\<open>drawImage(img, dx, dy, dw, dh)\<close>: the whole image as the source rectangle.\<close>

definition drawImage ::
  "('c \<Rightarrow> 'c) \<Rightarrow> Matrix \<Rightarrow> 'c Raster \<Rightarrow> real \<Rightarrow> real \<Rightarrow> real \<Rightarrow> real \<Rightarrow>
   real \<times> real \<Rightarrow> 'c option" where
  "drawImage F M img dx dy dw dh =
     drawImageRect F M img 0 0 (real (naturalWidth img)) (real (naturalHeight img)) dx dy dw dh"

text \<open>
  Assigning a non-negative number to \<^verbatim>\<open>canvas.width\<close> or \<^verbatim>\<open>canvas.height\<close> keeps
  its integer part.
\<close>

definition canvasSize :: "real \<Rightarrow> nat" where
  "canvasSize v = nat \<lfloor>v\<rfloor>"

text \<open>The image of a canvas of the given size: the picture inside the canvas.\<close>

definition canvasImage :: "nat \<Rightarrow> nat \<Rightarrow> (real \<times> real \<Rightarrow> 'c option) \<Rightarrow> 'c Raster" where
  "canvasImage w h picture =
     \<lparr>naturalWidth = w, naturalHeight = h,
      pixelAt = (\<lambda>p. if 0 \<le> fst p \<and> fst p < real w \<and> 0 \<le> snd p \<and> snd p < real h
                     then picture p else None)\<rparr>"

text \<open>The decimal text of an integer, as a template literal prints a number.\<close>

definition digitChar :: "nat \<Rightarrow> char" where
  "digitChar d = ''0123456789'' ! d"

fun showNat :: "nat \<Rightarrow> string" where
  "showNat n =
     (if n < 10 then [digitChar n] else showNat (n div 10) @ [digitChar (n mod 10)])"

definition numberToString :: "int \<Rightarrow> string" where
  "numberToString i = (if i < 0 then ''-'' @ showNat (nat (- i)) else showNat (nat i))"

definition adjustmentFilters :: "'c EditorState \<Rightarrow> string" where
  "adjustmentFilters st =
     ''brightness('' @ numberToString (brightness st) @ ''%) contrast('' @
     numberToString (contrast st) @ ''%) saturate('' @ numberToString (saturation st) @ ''%)''"

subsection \<open>Bake\<close>

text \<open>
  \<^verbatim>\<open>getBakedImageData\<close>. The platform's reading of a filter string as a colour
  transformation is the parameter \<open>cssFilter\<close>. The result is the image that the
  returned PNG data decodes to; it is \<open>None\<close> when there is no committed image and when
  the canvas is empty, whose data URL has no data.
\<close>

definition getBakedImageData ::
  "(string \<Rightarrow> 'c \<Rightarrow> 'c) \<Rightarrow> 'c EditorState \<Rightarrow> 'c Raster option" where
  "getBakedImageData cssFilter st =
     (case committedImage st of
        None \<Rightarrow> None
      | Some img \<Rightarrow>
          (let rad = rotation st * pi / 180;
               cosv = cos rad;
               sinv = sin rad;
               w = real (naturalWidth img) * uniformScale st;
               h = real (naturalHeight img) * uniformScale st;
               newWidth = \<bar>w * cosv\<bar> + \<bar>h * sinv\<bar>;
               newHeight = \<bar>w * sinv\<bar> + \<bar>h * cosv\<bar>;
               F = cssFilter (activeFilter st @ '' '' @ adjustmentFilters st);
               M = ctxScale (fst (flipScale st)) (snd (flipScale st))
                     (ctxRotate rad (ctxTranslate (newWidth / 2) (newHeight / 2) identityMatrix));
               picture = drawImage F M img (- w / 2) (- h / 2) w h
           in if canvasSize newWidth = 0 \<or> canvasSize newHeight = 0 then None
              else Some (canvasImage (canvasSize newWidth) (canvasSize newHeight) picture)))"

subsection \<open>Rendering the display canvas\<close>

text \<open>
  The drawing part of \<^verbatim>\<open>renderCanvas\<close>, after the layout and the resize of the canvases
  to the layout's size: the display canvas as an image.
\<close>

definition renderCanvas ::
  "(string \<Rightarrow> 'c \<Rightarrow> 'c) \<Rightarrow> (real \<Rightarrow> real) \<Rightarrow> (real \<Rightarrow> real) \<Rightarrow> real \<Rightarrow> real \<Rightarrow>
   'c EditorState \<Rightarrow> 'c Raster option" where
  "renderCanvas cssFilter mathCos mathSin containerWidth containerHeight st =
     (case committedImage st of
        None \<Rightarrow> None
      | Some img \<Rightarrow>
          (case renderLayout mathCos mathSin (naturalWidth img) (naturalHeight img) (rotation st)
                  (uniformScale st) containerWidth containerHeight of
             None \<Rightarrow> None
           | Some L \<Rightarrow>
               (let rad = rotation st * pi / 180;
                    imgWidth = real (naturalWidth img) * uniformScale st;
                    imgHeight = real (naturalHeight img) * uniformScale st;
                    cw = canvasSize (canvasWidth L);
                    ch = canvasSize (canvasHeight L);
                    M = ctxScale (fst (flipScale st)) (snd (flipScale st))
                          (ctxRotate rad
                            (ctxTranslate (real cw / (2 * zoom st)) (real ch / (2 * zoom st))
                              (ctxScale (zoom st) (zoom st)
                                (ctxTranslate (fst (panOffset st)) (snd (panOffset st))
                                  identityMatrix))));
                    F = cssFilter (activeFilter st @ '' '' @ adjustmentFilters st);
                    finalDrawWidth = imgWidth * displayScale L / zoom st;
                    finalDrawHeight = imgHeight * displayScale L / zoom st;
                    picture = drawImage F M img (- finalDrawWidth / 2) (- finalDrawHeight / 2)
                                finalDrawWidth finalDrawHeight
                in Some (canvasImage cw ch picture))))"

text \<open>The zoom buttons of the editor.\<close>

definition zoomOut :: "'c EditorState \<Rightarrow> 'c EditorState" where
  "zoomOut st = st\<lparr>zoom := max (zoom st / 1.25) 0.2\<rparr>"

definition zoomIn :: "'c EditorState \<Rightarrow> 'c EditorState" where
  "zoomIn st = st\<lparr>zoom := min (zoom st * 1.25) 8\<rparr>"

subsection \<open>Applying the crop\<close>

text \<open>The rotated extent of the committed image at its natural size.\<close>

definition nativeRotatedWidth :: "'c EditorState \<Rightarrow> 'c Raster \<Rightarrow> real" where
  "nativeRotatedWidth st img =
     real (naturalWidth img) * \<bar>cos (rotation st * pi / 180)\<bar> +
     real (naturalHeight img) * \<bar>sin (rotation st * pi / 180)\<bar>"

definition nativeRotatedHeight :: "'c EditorState \<Rightarrow> 'c Raster \<Rightarrow> real" where
  "nativeRotatedHeight st img =
     real (naturalWidth img) * \<bar>sin (rotation st * pi / 180)\<bar> +
     real (naturalHeight img) * \<bar>cos (rotation st * pi / 180)\<bar>"

text \<open>The canvas \<^verbatim>\<open>transformedCanvas\<close> of \<^verbatim>\<open>handleApplyCrop\<close>.\<close>

definition transformedCanvas :: "(string \<Rightarrow> 'c \<Rightarrow> 'c) \<Rightarrow> 'c EditorState \<Rightarrow> 'c Raster \<Rightarrow> 'c Raster" where
  "transformedCanvas cssFilter st img =
     (let rad = rotation st * pi / 180;
          newWidth = nativeRotatedWidth st img;
          newHeight = nativeRotatedHeight st img;
          F = cssFilter (adjustmentFilters st);
          M = ctxScale (fst (flipScale st)) (snd (flipScale st))
                (ctxRotate rad (ctxTranslate (newWidth / 2) (newHeight / 2) identityMatrix));
          picture = drawImage F M img (- real (naturalWidth img) / 2)
                      (- real (naturalHeight img) / 2)
                      (real (naturalWidth img)) (real (naturalHeight img))
      in canvasImage (canvasSize newWidth) (canvasSize newHeight) picture)"

definition scaleBetweenDisplayAndBaked :: "'c EditorState \<Rightarrow> 'c Raster \<Rightarrow> real" where
  "scaleBetweenDisplayAndBaked st img =
     nativeRotatedWidth st img / (real (baseCanvasWidth st) / zoom st)"

text \<open>
  \<^verbatim>\<open>handleApplyCrop\<close>. The state changes when the image made from the final canvas
  has loaded; an empty canvas gives no image, and then nothing changes.
\<close>

definition handleApplyCrop :: "(string \<Rightarrow> 'c \<Rightarrow> 'c) \<Rightarrow> 'c EditorState \<Rightarrow> 'c EditorState" where
  "handleApplyCrop cssFilter st =
     (case (committedImage st, cropBox st) of
        (Some img, Some box) \<Rightarrow>
          (let transformed = transformedCanvas cssFilter st img;
               k = scaleBetweenDisplayAndBaked st img;
               sx = cb_x box * k;
               sy = cb_y box * k;
               sWidth = cb_width box * k;
               sHeight = cb_height box * k;
               picture = drawImageRect (\<lambda>c. c) identityMatrix transformed
                           sx sy sWidth sHeight 0 0 sWidth sHeight;
               newImage = canvasImage (canvasSize sWidth) (canvasSize sHeight) picture
           in if canvasSize sWidth = 0 \<or> canvasSize sHeight = 0 then st
              else resetTransformsAndAdjustments (st\<lparr>committedImage := Some newImage\<rparr>))
      | _ \<Rightarrow> st)"

text \<open>
  An example: a committed image of size 4 by 3 whose colour at a point inside is the pair
  of the integer parts of its coordinates, in a state with neutral adjustments and
  transforms, and the state with a crop box on a display canvas of half the size.
\<close>

definition gridImage :: "(int \<times> int) Raster" where
  "gridImage =
     \<lparr>naturalWidth = 4, naturalHeight = 3,
      pixelAt = (\<lambda>p. if 0 \<le> fst p \<and> fst p < 4 \<and> 0 \<le> snd p \<and> snd p < 3
                     then Some (\<lfloor>fst p\<rfloor>, \<lfloor>snd p\<rfloor>) else None)\<rparr>"

definition neutralExample :: "(int \<times> int) EditorState" where
  "neutralExample =
     \<lparr>committedImage = Some gridImage, brightness = 100, contrast = 100, saturation = 100,
      rotation = 0, uniformScale = 1, flipScale = (1, 1), activeFilter = ''none'',
      isCropping = False, cropBox = None, draggingHandle = None, dragStartPos = (0, 0),
      zoom = 1, panOffset = (0, 0), baseCanvasWidth = 2, baseCanvasHeight = 1\<rparr>"

text \<open>
  The platform filter that changes no colour, and the example state after the zoom-in
  button has been pressed up to its cap of 8, with a crop box over the whole display
  canvas, of size 512 by 384.
\<close>

definition noFilter :: "string \<Rightarrow> 'c \<Rightarrow> 'c" where
  "noFilter filterText c = c"

definition zoomedCropExample :: "(int \<times> int) EditorState" where
  "zoomedCropExample =
     neutralExample\<lparr>zoom := 8, baseCanvasWidth := 512, baseCanvasHeight := 384,
       isCropping := True,
       cropBox := Some \<lparr>cb_x = 0, cb_y = 0, cb_width = 512, cb_height = 384\<rparr>\<rparr>"

section \<open>Proofs: mask history\<close>

lemma startedMask_eq:
  "b \<noteq> ''data:,'' \<Longrightarrow> startedMask b = \<lparr>history = [b], historyIndex = 0, drawingCanvas = b\<rparr>"
  by (simp add: startedMask_def recordBlank_def initialMask_def)

lemma stroke_step:
  assumes "0 \<le> historyIndex s" "historyIndex s < int (length (history s))" "c \<noteq> []"
  shows "maskStep b (Stroke c) s =
     \<lparr>history = take (nat (historyIndex s) + 1) (history s) @ [c],
      historyIndex = historyIndex s + 1, drawingCanvas = c\<rparr>"
  using assms
  by (simp add: maskStep_def saveState_def slice0_def redrawEffect_def redrawMask_def
      historyAt_def Let_def nat_add_distrib min_def nth_append)

lemma strokes_run:
  assumes "historyIndex s = int (length (history s)) - 1" "history s \<noteq> []"
    "\<forall>c\<in>set cs. c \<noteq> []" "cs \<noteq> []"
  shows "maskRun b (map Stroke cs) s =
     \<lparr>history = history s @ cs, historyIndex = int (length (history s) + length cs) - 1,
      drawingCanvas = last cs\<rparr>"
  using assms
proof (induction cs arbitrary: s)
  case Nil
  then show ?case by simp
next
  case (Cons c cs)
  have st: "maskStep b (Stroke c) s =
     \<lparr>history = history s @ [c], historyIndex = int (length (history s)), drawingCanvas = c\<rparr>"
    using Cons.prems by (subst stroke_step) (auto simp: nat_diff_distrib)
  show ?case
  proof (cases cs)
    case Nil
    then show ?thesis using st by simp
  next
    case (Cons d ds)
    then show ?thesis using st Cons.IH[of "maskStep b (Stroke c) s"] Cons.prems
      by simp
  qed
qed

lemma undo_step:
  assumes "0 < historyIndex s" "historyIndex s < int (length (history s))"
    "history s ! nat (historyIndex s - 1) \<noteq> []"
  shows "maskStep b Undo s =
     s\<lparr>historyIndex := historyIndex s - 1,
       drawingCanvas := history s ! nat (historyIndex s - 1)\<rparr>"
  using assms
  by (simp add: maskStep_def undo_def redrawEffect_def redrawMask_def historyAt_def)

lemma undos_run:
  assumes "int k \<le> historyIndex s" "historyIndex s < int (length (history s))"
    "\<forall>c\<in>set (history s). c \<noteq> []" "drawingCanvas s = history s ! nat (historyIndex s)"
  shows "maskRun b (replicate k Undo) s =
     s\<lparr>historyIndex := historyIndex s - int k,
       drawingCanvas := history s ! nat (historyIndex s - int k)\<rparr>"
  using assms
proof (induction k arbitrary: s)
  case 0
  then show ?case by simp
next
  case (Suc k)
  have idx: "nat (historyIndex s - 1) < length (history s)" using Suc.prems by auto
  have st: "maskStep b Undo s =
     s\<lparr>historyIndex := historyIndex s - 1,
       drawingCanvas := history s ! nat (historyIndex s - 1)\<rparr>"
    using Suc.prems idx by (intro undo_step) auto
  show ?case
    using Suc.IH[of "maskStep b Undo s"] Suc.prems st
    by (simp add: algebra_simps)
qed

lemma maskRun_append: "maskRun b (xs @ ys) s = maskRun b ys (maskRun b xs s)"
  by (induction xs arbitrary: s) auto


lemma redo_at_end:
  assumes "historyIndex s = int (length (history s)) - 1" "history s \<noteq> []"
    "drawingCanvas s = (if last (history s) \<noteq> [] then last (history s) else b)"
  shows "maskStep b Redo s = s"
proof -
  have n: "nat (historyIndex s) = length (history s) - 1" "0 \<le> historyIndex s"
    "historyIndex s < int (length (history s))"
    using assms by auto
  have "redrawMask b s = s"
    using assms n by (simp add: redrawMask_def historyAt_def last_conv_nth)
  then show ?thesis
    using n by (simp add: maskStep_def redo_def redrawEffect_def assms(1))
qed


text \<open>
  Claim C1 (as amended). In a session whose blank snapshot has been recorded, after
  \<open>N\<close> stroke commits and \<open>K \<le> N\<close> undos the history holds the blank snapshot and the
  \<open>N\<close> strokes, the cursor is \<open>N - K\<close> and the drawing canvas shows the snapshot at
  that index. A further stroke keeps the snapshots up to the cursor, drops the later ones
  and appends its own, the cursor is then the last index and redo changes nothing. After
  one stroke, one undo and a new stroke, the history is the blank snapshot and the new
  stroke: its length is the cursor before the undo plus one (not plus two).
\<close>

theorem mask_undo_redo:
  assumes blank: "b \<noteq> ''data:,''" "b \<noteq> []"
    and strokes: "\<forall>c\<in>set cs. c \<noteq> []"
    and k: "k \<le> length cs"
    and new: "c \<noteq> []" "c1 \<noteq> []" "c2 \<noteq> []"
  shows "(let s2 = maskRun b (map Stroke cs @ replicate k Undo) (startedMask b);
              s3 = maskStep b (Stroke c) s2
          in history s2 = b # cs \<and>
             historyIndex s2 = int (length cs) - int k \<and>
             drawingCanvas s2 = (b # cs) ! (length cs - k) \<and>
             history s3 = take (length cs - k + 1) (b # cs) @ [c] \<and>
             historyIndex s3 = int (length (history s3)) - 1 \<and>
             maskStep b Redo s3 = s3) \<and>
         (let p1 = maskStep b (Stroke c1) (startedMask b);
              p2 = maskStep b Undo p1;
              p3 = maskStep b (Stroke c2) p2
          in history p3 = [b, c2] \<and>
             int (length (history p3)) = historyIndex p1 + 1)"
proof -
  define s1 where "s1 = maskRun b (map Stroke cs) (startedMask b)"
  have s1: "s1 = \<lparr>history = b # cs, historyIndex = int (length cs),
                  drawingCanvas = (b # cs) ! length cs\<rparr>"
  proof (cases "cs = []")
    case True
    then show ?thesis using blank by (simp add: s1_def startedMask_eq)
  next
    case False
    then have "last cs = (b # cs) ! length cs"
      by (simp add: last_conv_nth)
    then show ?thesis
      using strokes_run[of "startedMask b" cs b] blank strokes False
      by (simp add: s1_def startedMask_eq)
  qed
  define s2 where "s2 = maskRun b (replicate k Undo) s1"
  have s2: "s2 = \<lparr>history = b # cs, historyIndex = int (length cs) - int k,
                  drawingCanvas = (b # cs) ! (length cs - k)\<rparr>"
    using undos_run[of k s1 b] blank strokes k
    by (simp add: s2_def s1 nat_diff_distrib)
  have run: "maskRun b (map Stroke cs @ replicate k Undo) (startedMask b) = s2"
    by (simp add: maskRun_append s2_def s1_def)
  have s3: "maskStep b (Stroke c) s2 =
      \<lparr>history = take (length cs - k + 1) (b # cs) @ [c],
       historyIndex = int (length cs) - int k + 1, drawingCanvas = c\<rparr>"
    using stroke_step[of s2 c b] new k by (simp add: s2 nat_diff_distrib)
  have len: "int (length (take (length cs - k + 1) (b # cs) @ [c])) = int (length cs) - int k + 2"
  proof -
    have "min (length cs - k + 1) (length (b # cs)) = length cs - k + 1"
      using k by simp
    then show ?thesis using k by (simp del: take_Suc_Cons add: nat_diff_distrib)
  qed
  have redo: "maskStep b Redo (maskStep b (Stroke c) s2) = maskStep b (Stroke c) s2"
    using new len by (intro redo_at_end) (simp_all add: s3 del: take_Suc_Cons length_take)
  have first: "let s2 = maskRun b (map Stroke cs @ replicate k Undo) (startedMask b);
              s3 = maskStep b (Stroke c) s2
          in history s2 = b # cs \<and>
             historyIndex s2 = int (length cs) - int k \<and>
             drawingCanvas s2 = (b # cs) ! (length cs - k) \<and>
             history s3 = take (length cs - k + 1) (b # cs) @ [c] \<and>
             historyIndex s3 = int (length (history s3)) - 1 \<and>
             maskStep b Redo s3 = s3"
    unfolding run Let_def
    using s3 redo len by (simp add: s2 del: take_Suc_Cons length_take)
  have p1: "maskStep b (Stroke c1) (startedMask b) =
      \<lparr>history = [b, c1], historyIndex = 1, drawingCanvas = c1\<rparr>"
    using stroke_step[of "startedMask b" c1 b] blank new by (simp add: startedMask_eq)
  have p2: "maskStep b Undo \<lparr>history = [b, c1], historyIndex = 1, drawingCanvas = c1\<rparr> =
      \<lparr>history = [b, c1], historyIndex = 0, drawingCanvas = b\<rparr>"
    using blank by (subst undo_step) simp_all
  have p3: "maskStep b (Stroke c2) \<lparr>history = [b, c1], historyIndex = 0, drawingCanvas = b\<rparr> =
      \<lparr>history = [b, c2], historyIndex = 1, drawingCanvas = c2\<rparr>"
    using new by (subst stroke_step) simp_all
  show ?thesis
    using first by (simp add: p1 p2 p3 Let_def)
qed

theorem mask_undo_redo_witness:
  "let s2 = maskRun ''m0'' (map Stroke [''m1'', ''m2''] @ replicate 1 Undo) (startedMask ''m0'')
   in history s2 = [''m0'', ''m1'', ''m2''] \<and> historyIndex s2 = 1 \<and> drawingCanvas s2 = ''m1''"
  using mask_undo_redo [of "''m0''" "[''m1'', ''m2'']" 1 "''m3''" "''m4''" "''m5''"]
  by (simp add: Let_def)

theorem mask_scenario_counterexample:
  "int (length (history
      (maskStep ''m0'' (Stroke ''m2'')
        (maskStep ''m0'' Undo (maskStep ''m0'' (Stroke ''m1'') (startedMask ''m0'')))))) \<noteq>
   historyIndex (maskStep ''m0'' (Stroke ''m1'') (startedMask ''m0'')) + 2"
  by (simp add: maskStep_def startedMask_def recordBlank_def initialMask_def saveState_def
      slice0_def undo_def redrawEffect_def redrawMask_def historyAt_def Let_def)

lemma redrawEffect_fields:
  "history (redrawEffect b s) = history s" "historyIndex (redrawEffect b s) = historyIndex s"
  by (simp_all add: redrawEffect_def redrawMask_def split: option.splits)

lemma maskStep_inv:
  assumes "maskInv b s"
  shows "maskInv b (maskStep b op s)"
proof -
  have idx: "0 \<le> historyIndex s" "historyIndex s < int (length (history s))"
    and zero: "history s ! 0 = b"
    using assms by (simp_all add: maskInv_def)
  have ne: "history s \<noteq> []" using idx by auto
  have "maskInv b (handler b op s)"
  proof (cases op)
    case (Stroke c)
    then show ?thesis using idx zero ne
      by (auto simp add: maskInv_def saveState_def slice0_def Let_def nth_append min_def)
  next
    case Undo
    then show ?thesis using idx zero ne by (auto simp add: maskInv_def undo_def)
  next
    case Redo
    then show ?thesis using idx zero ne by (auto simp add: maskInv_def redo_def)
  next
    case Clear
    then show ?thesis using idx zero ne
      by (auto simp add: maskInv_def saveState_def slice0_def Let_def nth_append min_def)
  qed
  then show ?thesis
    by (simp add: maskInv_def maskStep_def redrawEffect_fields)
qed

lemma maskRun_inv: "maskInv b s \<Longrightarrow> maskInv b (maskRun b ops s)"
  by (induction ops arbitrary: s) (auto intro: maskStep_inv)

text \<open>
  Claim C7 (as amended). The cursor invariant \<open>0 \<le> historyIndex < length history\<close>, with
  the blank mask at index 0, holds once the blank snapshot has been recorded, and every
  mask operation (stroke commit, undo, redo, clear) and every sequence of them
  preserves it. The state before that (\<^verbatim>\<open>[]\<close>, \<^verbatim>\<open>-1\<close>) is outside the invariant.
\<close>

theorem mask_cursor_invariant:
  "(b \<noteq> ''data:,'' \<longrightarrow> maskInv b (startedMask b)) \<and>
   (maskInv b s \<longrightarrow> maskInv b (maskStep b op s)) \<and>
   (maskInv b s \<longrightarrow> maskInv b (maskRun b ops s))"
  by (simp add: maskStep_inv maskRun_inv)
    (simp add: maskInv_def startedMask_def recordBlank_def initialMask_def)

theorem mask_cursor_invariant_witness:
  "maskInv ''m0'' (startedMask ''m0'') \<and>
   maskInv ''m0'' (maskStep ''m0'' Undo (startedMask ''m0'')) \<and>
   maskInv ''m0'' (maskRun ''m0'' [Stroke ''m1'', Undo, Redo, Clear] (startedMask ''m0''))"
  using mask_cursor_invariant [of "''m0''" "startedMask ''m0''" Undo
      "[Stroke ''m1'', Undo, Redo, Clear]"]
  by simp

theorem mask_initial_state_counterexample:
  "\<not> maskInv ''m0'' (initialMask ''m0'')"
  by (simp add: maskInv_def initialMask_def)

section \<open>Proofs: remote image service\<close>

lemma firstImage_None_iff:
  "firstImage ps = None \<longleftrightarrow> (\<forall>p\<in>set ps. inlineData p = None)"
  by (induction ps) (auto split: option.splits)

lemma firstImage_first:
  assumes "\<forall>q\<in>set ps1. inlineData q = None" "inlineData p = Some d"
  shows "firstImage (ps1 @ p # ps2) = Some d"
  using assms by (induction ps1) auto

lemma rethrow_newError: "rethrow fallback (newError m) = newError m"
  by (simp add: rethrow_def newError_def)

lemma rethrow_is_newError: "\<exists>m. rethrow fallback e = newError m"
  by (auto simp add: rethrow_def split: option.splits)

lemma noImageMessage_reason:
  assumes "responseFinishReason r = Some fr" "fr \<noteq> ''STOP''"
  shows "sublist fr (noImageMessage d r)"
proof (cases "fr = []")
  case True
  then show ?thesis by simp
next
  case False
  have "sublist fr (''Image generation failed with reason: '' @ fr @ ''.'' @ rest)" for rest
    by (rule sublist_appendI)
  from this[of "[]"] this
  show ?thesis using assms False
    by (auto simp add: noImageMessage_def Let_def split: option.splits
        simp del: sublist_Cons_right)
qed

lemma noImageMessage_text:
  assumes "responseText r = Some t" "trim t \<noteq> []"
  shows \<open>suffix ('' The model responded with: "'' @ trim t @ ''"'') (noImageMessage d r)\<close>
proof -
  have "t \<noteq> []" using assms(2) by (auto simp: trim_def)
  then show ?thesis using assms
    by (simp add: noImageMessage_def Let_def suffix_def)
qed

lemma imageOrThrow_response:
  "imageOrThrow d f (Inr r) =
     (case firstImage (responseParts r) of
        Some im \<Rightarrow> Inr im
      | None \<Rightarrow> Inl (newError (noImageMessage d r)))"
  by (simp add: imageOrThrow_def rethrow_newError split: option.splits)


lemma first_candidate_parts:
  "candidates r = Some (c # cs) \<Longrightarrow> contentParts c = Some ps \<Longrightarrow> responseParts r = ps"
  "candidates r = Some (c # cs) \<Longrightarrow> contentParts c = None \<Longrightarrow> responseParts r = []"
  "candidates r = None \<Longrightarrow> responseParts r = []"
  "candidates r = Some [] \<Longrightarrow> responseParts r = []"
  "candidates r = Some (c # cs) \<Longrightarrow> responseFinishReason r = finishReason c"
  by (simp_all add: responseParts_def responseFinishReason_def firstCandidate_def)

lemma trim_decomposition:
  "\<exists>pre post. t = pre @ trim t @ post \<and>
      (\<forall>ch\<in>set pre. isWhiteSpace ch) \<and> (\<forall>ch\<in>set post. isWhiteSpace ch) \<and>
      (trim t \<noteq> [] \<longrightarrow> \<not> isWhiteSpace (hd (trim t)) \<and> \<not> isWhiteSpace (last (trim t)))"
proof -
  define pre where "pre = takeWhile isWhiteSpace t"
  define mid where "mid = dropWhile isWhiteSpace t"
  define post where "post = rev (takeWhile isWhiteSpace (rev mid))"
  have tr: "trim t = rev (dropWhile isWhiteSpace (rev mid))"
    by (simp add: trim_def mid_def)
  have "mid = rev (takeWhile isWhiteSpace (rev mid) @ dropWhile isWhiteSpace (rev mid))"
    by (simp only: takeWhile_dropWhile_id rev_rev_ident)
  also have "\<dots> = rev (dropWhile isWhiteSpace (rev mid)) @ rev (takeWhile isWhiteSpace (rev mid))"
    by (rule rev_append)
  finally have mid: "mid = trim t @ post"
    unfolding tr post_def .
  have "t = pre @ mid"
    by (simp add: pre_def mid_def)
  then have t: "t = pre @ trim t @ post"
    using mid by simp
  have wpre: "\<forall>ch\<in>set pre. isWhiteSpace ch"
    by (auto simp: pre_def dest: set_takeWhileD)
  have wpost: "\<forall>ch\<in>set post. isWhiteSpace ch"
    by (auto simp: post_def dest: set_takeWhileD)
  have ends: "\<not> isWhiteSpace (hd (trim t)) \<and> \<not> isWhiteSpace (last (trim t))" if ne: "trim t \<noteq> []"
  proof -
    have d: "dropWhile isWhiteSpace (rev mid) \<noteq> []" using ne by (simp add: tr)
    have l: "\<not> isWhiteSpace (last (trim t))"
      using hd_dropWhile [OF d] d by (simp add: tr last_rev)
    have "mid \<noteq> []" using ne tr by auto
    then have "\<not> isWhiteSpace (hd mid)"
      unfolding mid_def by (rule hd_dropWhile)
    then have "\<not> isWhiteSpace (hd (trim t))"
      using mid ne by (metis hd_append2)
    then show ?thesis using l by simp
  qed
  show ?thesis
    using t wpre wpost ends by blast
qed

text \<open>
  Claim C8 (as amended). Given the response \<open>r\<close> of the service, \<^verbatim>\<open>generateImage\<close>
  and \<^verbatim>\<open>editImage\<close> read the content parts of the first candidate only. When the
  response has such parts they throw exactly when none of them carries an image, and
  otherwise return the first image part among them; when the response has no candidate,
  or its first candidate no parts, they throw. The thrown error is an \<^verbatim>\<open>Error\<close> whose
  message contains the finish reason of the first candidate whenever it is not
  \<^verbatim>\<open>STOP\<close> and ends with the trimmed response text in quotes whenever the text is not
  blank, that is, not empty after trimming; the trimmed text is the text without its
  leading and trailing white space. With finish reason \<^verbatim>\<open>SAFETY\<close> the message contains
  \<^verbatim>\<open>SAFETY\<close>.
\<close>

theorem no_image_failure_surfacing:
  assumes \<open>(result = generateImage api prompt aspectRatio style negativePrompt msgs \<and>
            api (generateRequest prompt aspectRatio style negativePrompt msgs) = Inr r) \<or>
           (result = editImage api prompt img maskImg \<and>
            api (editRequest prompt img maskImg) = Inr r)\<close>
  shows \<open>(\<forall>c cs ps. candidates r = Some (c # cs) \<and> contentParts c = Some ps \<longrightarrow>
       ((\<exists>x. result = Inl x) \<longleftrightarrow> (\<forall>p\<in>set ps. inlineData p = None)) \<and>
       (\<forall>ps1 p ps2 im. ps = ps1 @ p # ps2 \<and>
           (\<forall>q\<in>set ps1. inlineData q = None) \<and> inlineData p = Some im \<longrightarrow>
           result = Inr im)) \<and>
    (candidates r = None \<or> candidates r = Some [] \<or>
       (\<exists>c cs. candidates r = Some (c # cs) \<and> contentParts c = None) \<longrightarrow>
       (\<exists>x. result = Inl x)) \<and>
    (\<forall>x. result = Inl x \<longrightarrow>
       (\<exists>msg. x = newError msg \<and>
          (\<forall>c cs fr. candidates r = Some (c # cs) \<and> finishReason c = Some fr \<and>
             fr \<noteq> ''STOP'' \<longrightarrow> sublist fr msg) \<and>
          (\<forall>t. responseText r = Some t \<and> trim t \<noteq> [] \<longrightarrow>
             suffix ('' The model responded with: "'' @ trim t @ ''"'') msg) \<and>
          (\<forall>c cs. candidates r = Some (c # cs) \<and> finishReason c = Some ''SAFETY'' \<longrightarrow>
             sublist ''SAFETY'' msg))) \<and>
    (\<forall>t. responseText r = Some t \<longrightarrow>
       (\<exists>pre post. t = pre @ trim t @ post \<and>
          (\<forall>ch\<in>set pre. isWhiteSpace ch) \<and> (\<forall>ch\<in>set post. isWhiteSpace ch) \<and>
          (trim t \<noteq> [] \<longrightarrow>
             \<not> isWhiteSpace (hd (trim t)) \<and> \<not> isWhiteSpace (last (trim t)))))\<close>
proof -
  from assms obtain d f where res: "result = imageOrThrow d f (Inr r)"
    by (auto simp: generateImage_def editImage_def)
  have A: "\<forall>c cs ps. candidates r = Some (c # cs) \<and> contentParts c = Some ps \<longrightarrow>
       ((\<exists>x. result = Inl x) \<longleftrightarrow> (\<forall>p\<in>set ps. inlineData p = None)) \<and>
       (\<forall>ps1 p ps2 im. ps = ps1 @ p # ps2 \<and>
           (\<forall>q\<in>set ps1. inlineData q = None) \<and> inlineData p = Some im \<longrightarrow>
           result = Inr im)"
  proof (intro allI impI)
    fix c cs ps
    assume "candidates r = Some (c # cs) \<and> contentParts c = Some ps"
    then have ps: "responseParts r = ps"
      using first_candidate_parts(1) by blast
    have iff: "(\<exists>x. result = Inl x) \<longleftrightarrow> (\<forall>p\<in>set ps. inlineData p = None)"
      by (simp add: res imageOrThrow_response ps firstImage_None_iff [symmetric]
          split: option.splits)
    have first: "\<forall>ps1 p ps2 im. ps = ps1 @ p # ps2 \<and>
           (\<forall>q\<in>set ps1. inlineData q = None) \<and> inlineData p = Some im \<longrightarrow>
           result = Inr im"
      by (auto simp add: res imageOrThrow_response ps firstImage_first)
    show "((\<exists>x. result = Inl x) \<longleftrightarrow> (\<forall>p\<in>set ps. inlineData p = None)) \<and>
       (\<forall>ps1 p ps2 im. ps = ps1 @ p # ps2 \<and>
           (\<forall>q\<in>set ps1. inlineData q = None) \<and> inlineData p = Some im \<longrightarrow>
           result = Inr im)"
      using iff first by (rule conjI)
  qed
  have B: "candidates r = None \<or> candidates r = Some [] \<or>
       (\<exists>c cs. candidates r = Some (c # cs) \<and> contentParts c = None) \<longrightarrow>
       (\<exists>x. result = Inl x)"
  proof
    assume "candidates r = None \<or> candidates r = Some [] \<or>
       (\<exists>c cs. candidates r = Some (c # cs) \<and> contentParts c = None)"
    then have "responseParts r = []"
      using first_candidate_parts(2-4) by blast
    then show "\<exists>x. result = Inl x" by (simp add: res imageOrThrow_response)
  qed
  have C: \<open>\<forall>x. result = Inl x \<longrightarrow>
       (\<exists>msg. x = newError msg \<and>
          (\<forall>c cs fr. candidates r = Some (c # cs) \<and> finishReason c = Some fr \<and>
             fr \<noteq> ''STOP'' \<longrightarrow> sublist fr msg) \<and>
          (\<forall>t. responseText r = Some t \<and> trim t \<noteq> [] \<longrightarrow>
             suffix ('' The model responded with: "'' @ trim t @ ''"'') msg) \<and>
          (\<forall>c cs. candidates r = Some (c # cs) \<and> finishReason c = Some ''SAFETY'' \<longrightarrow>
             sublist ''SAFETY'' msg))\<close>
  proof (intro allI impI)
    fix x
    assume "result = Inl x"
    then have x: "x = newError (noImageMessage d r)"
      by (simp add: res imageOrThrow_response split: option.splits)
    have reason: "sublist fr (noImageMessage d r)"
      if "candidates r = Some (c # cs) \<and> finishReason c = Some fr \<and> fr \<noteq> ''STOP''"
      for c cs fr
    proof -
      have "responseFinishReason r = Some fr"
        using that first_candidate_parts(5) [of r c cs] by simp
      then show ?thesis using that by (intro noImageMessage_reason) simp_all
    qed
    have safety: "sublist ''SAFETY'' (noImageMessage d r)"
      if "candidates r = Some (c # cs) \<and> finishReason c = Some ''SAFETY''" for c cs
      using reason [of c cs "''SAFETY''"] that by simp
    have clause: \<open>suffix ('' The model responded with: "'' @ trim t @ ''"'') (noImageMessage d r)\<close>
      if "responseText r = Some t \<and> trim t \<noteq> []" for t
      using that by (intro noImageMessage_text) simp_all
    show \<open>\<exists>msg. x = newError msg \<and>
          (\<forall>c cs fr. candidates r = Some (c # cs) \<and> finishReason c = Some fr \<and>
             fr \<noteq> ''STOP'' \<longrightarrow> sublist fr msg) \<and>
          (\<forall>t. responseText r = Some t \<and> trim t \<noteq> [] \<longrightarrow>
             suffix ('' The model responded with: "'' @ trim t @ ''"'') msg) \<and>
          (\<forall>c cs. candidates r = Some (c # cs) \<and> finishReason c = Some ''SAFETY'' \<longrightarrow>
             sublist ''SAFETY'' msg)\<close>
      unfolding x using reason safety clause by blast
  qed
  have D: "\<forall>t. responseText r = Some t \<longrightarrow>
       (\<exists>pre post. t = pre @ trim t @ post \<and>
          (\<forall>ch\<in>set pre. isWhiteSpace ch) \<and> (\<forall>ch\<in>set post. isWhiteSpace ch) \<and>
          (trim t \<noteq> [] \<longrightarrow>
             \<not> isWhiteSpace (hd (trim t)) \<and> \<not> isWhiteSpace (last (trim t))))"
    using trim_decomposition by blast
  show ?thesis
    by (rule conjI [OF A conjI [OF B conjI [OF C D]]])
qed

theorem no_image_failure_surfacing_witness:
  \<open>(\<exists>msg. editImage (respondWith safetyResponse) ''p'' pngExample None = Inl (newError msg) \<and>
      sublist ''SAFETY'' msg \<and> suffix '' The model responded with: "no"'' msg) \<and>
    generateImage (respondWith imageResponse) ''a red cube'' Ratio_1_1 Default [] [] =
      Inr pngExample\<close>
proof -
  let ?res1 = "editImage (respondWith safetyResponse) ''p'' pngExample None"
  let ?res2 = "generateImage (respondWith imageResponse) ''a red cube'' Ratio_1_1 Default [] []"
  have hyp1: "(?res1 = generateImage (respondWith safetyResponse) ''p'' Ratio_1_1 Default [] [] \<and>
              respondWith safetyResponse (generateRequest ''p'' Ratio_1_1 Default [] []) =
                Inr safetyResponse) \<or>
             (?res1 = editImage (respondWith safetyResponse) ''p'' pngExample None \<and>
              respondWith safetyResponse (editRequest ''p'' pngExample None) = Inr safetyResponse)"
    by (simp add: respondWith_def)
  have hyp2: "(?res2 = generateImage (respondWith imageResponse) ''a red cube'' Ratio_1_1
                 Default [] [] \<and>
              respondWith imageResponse (generateRequest ''a red cube'' Ratio_1_1 Default [] []) =
                Inr imageResponse) \<or>
             (?res2 = editImage (respondWith imageResponse) ''a red cube'' pngExample None \<and>
              respondWith imageResponse (editRequest ''a red cube'' pngExample None) =
                Inr imageResponse)"
    by (simp add: respondWith_def)
  have c1: "candidates safetyResponse =
      Some (\<lparr>contentParts = Some [\<lparr>inlineData = None, partText = Some ''no''\<rparr>],
             finishReason = Some ''SAFETY''\<rparr> # [])"
    and tx: "responseText safetyResponse = Some '' no ''"
    and tr: "trim '' no '' = ''no''"
    by (simp_all add: safetyResponse_def trim_def isWhiteSpace_def)
  have c2: "candidates imageResponse =
      Some (\<lparr>contentParts = Some ([\<lparr>inlineData = None, partText = Some ''here''\<rparr>] @
               \<lparr>inlineData = Some pngExample, partText = None\<rparr> # []),
             finishReason = Some ''STOP''\<rparr> # [])"
    by (simp add: imageResponse_def)
  let ?c1 = "\<lparr>contentParts = Some [\<lparr>inlineData = None, partText = Some ''no''\<rparr>],
             finishReason = Some ''SAFETY''\<rparr>"
  let ?c2 = "\<lparr>contentParts = Some ([\<lparr>inlineData = None, partText = Some ''here''\<rparr>] @
               \<lparr>inlineData = Some pngExample, partText = None\<rparr> # []),
             finishReason = Some ''STOP''\<rparr>"
  note th1 = no_image_failure_surfacing [OF hyp1]
  note th2 = no_image_failure_surfacing [OF hyp2]
  have throws: "\<exists>x. ?res1 = Inl x"
  proof -
    have "(\<exists>x. ?res1 = Inl x) \<longleftrightarrow>
        (\<forall>p\<in>set [\<lparr>inlineData = None, partText = Some ''no''\<rparr>]. inlineData p = None)"
      using th1 [THEN conjunct1] c1 by simp
    then show ?thesis by simp
  qed
  then obtain x where x: "?res1 = Inl x" ..
  have \<open>\<exists>msg. x = newError msg \<and>
          (\<forall>c cs fr. candidates safetyResponse = Some (c # cs) \<and> finishReason c = Some fr \<and>
             fr \<noteq> ''STOP'' \<longrightarrow> sublist fr msg) \<and>
          (\<forall>t. responseText safetyResponse = Some t \<and> trim t \<noteq> [] \<longrightarrow>
             suffix ('' The model responded with: "'' @ trim t @ ''"'') msg) \<and>
          (\<forall>c cs. candidates safetyResponse = Some (c # cs) \<and>
             finishReason c = Some ''SAFETY'' \<longrightarrow> sublist ''SAFETY'' msg)\<close>
    using th1 [THEN conjunct2, THEN conjunct2, THEN conjunct1] x by blast
  then obtain msg where msg: "x = newError msg"
    and safety: "\<forall>c cs. candidates safetyResponse = Some (c # cs) \<and>
             finishReason c = Some ''SAFETY'' \<longrightarrow> sublist ''SAFETY'' msg"
    and clause: \<open>\<forall>t. responseText safetyResponse = Some t \<and> trim t \<noteq> [] \<longrightarrow>
             suffix ('' The model responded with: "'' @ trim t @ ''"'') msg\<close>
    by blast
  have s1: "sublist ''SAFETY'' msg"
    using safety c1 by simp
  have \<open>suffix ('' The model responded with: "'' @ trim '' no '' @ ''"'') msg\<close>
    using clause tx tr by simp
  then have s2: \<open>suffix '' The model responded with: "no"'' msg\<close>
    by (simp add: tr)
  have one: \<open>\<exists>msg. ?res1 = Inl (newError msg) \<and>
      sublist ''SAFETY'' msg \<and> suffix '' The model responded with: "no"'' msg\<close>
    using x msg s1 s2 by blast
  let ?ps = "[\<lparr>inlineData = None, partText = Some ''here''\<rparr>] @
               \<lparr>inlineData = Some pngExample, partText = None\<rparr> # []"
  have "((\<exists>x. ?res2 = Inl x) \<longleftrightarrow> (\<forall>p\<in>set ?ps. inlineData p = None)) \<and>
       (\<forall>ps1 p ps2 im. ?ps = ps1 @ p # ps2 \<and>
           (\<forall>q\<in>set ps1. inlineData q = None) \<and> inlineData p = Some im \<longrightarrow>
           ?res2 = Inr im)"
  proof (rule th2 [THEN conjunct1, THEN spec, THEN spec, THEN spec, THEN mp])
    show "candidates imageResponse = Some (?c2 # []) \<and> contentParts ?c2 = Some ?ps"
      using c2 by simp
  qed
  then have "\<forall>ps1 p ps2 im. ?ps = ps1 @ p # ps2 \<and>
           (\<forall>q\<in>set ps1. inlineData q = None) \<and> inlineData p = Some im \<longrightarrow>
           ?res2 = Inr im"
    by (rule conjunct2)
  then have "?ps = [\<lparr>inlineData = None, partText = Some ''here''\<rparr>] @
               \<lparr>inlineData = Some pngExample, partText = None\<rparr> # [] \<and>
        (\<forall>q\<in>set [\<lparr>inlineData = None, partText = Some ''here''\<rparr>]. inlineData q = None) \<and>
        inlineData \<lparr>inlineData = Some pngExample, partText = None\<rparr> = Some pngExample
        \<longrightarrow> ?res2 = Inr pngExample"
    by (elim allE)
  then have two: "?res2 = Inr pngExample"
    by simp
  show ?thesis using one two by blast
qed

text \<open>
  Without the amendment the claim fails where the image part is in the second candidate
  and the text is one space: an image part is present and the text is not empty, yet the
  operation throws and nothing is appended to the message.
\<close>

theorem no_image_second_candidate_counterexample:
  "inlineData (hd (the (contentParts (the (candidates secondCandidateResponse) ! 1)))) =
     Some pngExample \<and>
   responseText secondCandidateResponse = Some '' '' \<and>
   editImage (respondWith secondCandidateResponse) ''p'' pngExample None =
     Inl (newError ''No edited image data found in the response.'')"
  by (simp add: secondCandidateResponse_def editImage_def respondWith_def imageOrThrow_def
      responseParts_def firstCandidate_def rethrow_def newError_def noImageMessage_def
      responseFinishReason_def trim_def isWhiteSpace_def editDefaultMessage_def Let_def)

lemma editImage_throws_newError:
  "editImage api prompt img maskImg = Inl e \<Longrightarrow> \<exists>m. e = newError m"
  using rethrow_is_newError
  by (auto simp: editImage_def imageOrThrow_def split: sum.splits option.splits)

lemma errorMessage_newError: "errorMessage (newError m) = Some m"
  by (simp add: newError_def)

text \<open>
  Claim C9. \<^verbatim>\<open>enhanceImage\<close> and \<^verbatim>\<open>removeBackground\<close> call \<^verbatim>\<open>editImage\<close> with
  their fixed prompts and no mask and return its image. Whenever that call throws, the
  thrown value is an \<^verbatim>\<open>Error\<close> with some message \<open>m\<close>, and \<^verbatim>\<open>enhanceImage\<close> throws
  an error with message \<^verbatim>\<open>Enhancement failed: \<close> followed by \<open>m\<close>,
  \<^verbatim>\<open>removeBackground\<close> one with \<^verbatim>\<open>Background removal failed: \<close> followed by \<open>m\<close>.
\<close>

theorem stage_error_rewrapping:
  "(\<forall>out. editImage api ENHANCE_PROMPT img None = Inr out \<longrightarrow> enhanceImage api img = Inr out) \<and>
   (\<forall>e. editImage api ENHANCE_PROMPT img None = Inl e \<longrightarrow>
      (\<exists>m. e = newError m \<and>
           enhanceImage api img = Inl (newError (''Enhancement failed: '' @ m)))) \<and>
   (\<forall>out. editImage api REMOVE_BACKGROUND_PROMPT img None = Inr out \<longrightarrow>
      removeBackground api img = Inr out) \<and>
   (\<forall>e. editImage api REMOVE_BACKGROUND_PROMPT img None = Inl e \<longrightarrow>
      (\<exists>m. e = newError m \<and>
           removeBackground api img = Inl (newError (''Background removal failed: '' @ m))))"
proof (intro conjI allI impI)
  fix out
  assume "editImage api ENHANCE_PROMPT img None = Inr out"
  then show "enhanceImage api img = Inr out" by (simp add: enhanceImage_def)
next
  fix e
  assume e: "editImage api ENHANCE_PROMPT img None = Inl e"
  then obtain m where "e = newError m" using editImage_throws_newError by blast
  then show "\<exists>m. e = newError m \<and>
           enhanceImage api img = Inl (newError (''Enhancement failed: '' @ m))"
    using e by (auto simp add: enhanceImage_def errorMessage_newError)
next
  fix out
  assume "editImage api REMOVE_BACKGROUND_PROMPT img None = Inr out"
  then show "removeBackground api img = Inr out" by (simp add: removeBackground_def)
next
  fix e
  assume e: "editImage api REMOVE_BACKGROUND_PROMPT img None = Inl e"
  then obtain m where "e = newError m" using editImage_throws_newError by blast
  then show "\<exists>m. e = newError m \<and>
           removeBackground api img = Inl (newError (''Background removal failed: '' @ m))"
    using e by (auto simp add: removeBackground_def errorMessage_newError)
qed

theorem stage_error_rewrapping_witness:
  "enhanceImage (\<lambda>_. Inl (Thrown (Some ''quota exceeded'') None))
     \<lparr>mimeType = ''image/png'', data = ''AA''\<rparr> =
     Inl (newError ''Enhancement failed: quota exceeded'') \<and>
   removeBackground (\<lambda>_. Inr safetyResponse) \<lparr>mimeType = ''image/png'', data = ''AA''\<rparr> =
     Inl (newError (''Background removal failed: '' @ noImageMessage editDefaultMessage safetyResponse))"
proof -
  let ?img = "\<lparr>mimeType = ''image/png'', data = ''AA''\<rparr>"
  let ?api1 = "\<lambda>_::Request. (Inl (Thrown (Some ''quota exceeded'') None) :: thrown + Response)"
  let ?api2 = "\<lambda>_::Request. (Inr safetyResponse :: thrown + Response)"
  have e1: "editImage ?api1 ENHANCE_PROMPT ?img None = Inl (newError ''quota exceeded'')"
    by (simp add: editImage_def imageOrThrow_def rethrow_def)
  have parts: "firstImage (responseParts safetyResponse) = None"
    by (simp add: safetyResponse_def responseParts_def firstCandidate_def)
  have e2: "editImage ?api2 REMOVE_BACKGROUND_PROMPT ?img None =
      Inl (newError (noImageMessage editDefaultMessage safetyResponse))"
    by (simp add: editImage_def imageOrThrow_def parts rethrow_newError)
  have inj: "newError a = newError b \<longleftrightarrow> a = b" for a b
    by (simp add: newError_def)
  show ?thesis
    using stage_error_rewrapping [of ?api1 ?img] stage_error_rewrapping [of ?api2 ?img] e1 e2
    by (simp add: inj)
qed

section \<open>Proofs: local message store\<close>

lemma clearCursor_records:
  "records (clearCursor ks st) = filter (\<lambda>m. sm_id m \<notin> set ks) (records st)"
  by (induction ks arbitrary: st) (auto simp: storeDelete_def intro: filter_cong)

lemma clearCursor_keyGenerator: "keyGenerator (clearCursor ks st) = keyGenerator st"
  by (induction ks arbitrary: st) (auto simp: storeDelete_def)

lemma storeStep_records_subset:
  "m \<in> set (records (storeStep x st)) \<Longrightarrow>
   m \<in> set (records st) \<or> (\<exists>msg sid now. x = AddMessage msg sid now \<and> sm_id m = keyGenerator st \<and> sessionId m = sid)"
  by (cases x)
    (auto simp: addMessageToDB_def Let_def deleteMessageFromDB_def storeDelete_def
      clearAllMessages_def clearCursor_records)

lemma storeStep_keyGenerator: "keyGenerator st \<le> keyGenerator (storeStep x st)"
  by (cases x)
    (auto simp: addMessageToDB_def Let_def deleteMessageFromDB_def storeDelete_def
      clearAllMessages_def clearCursor_keyGenerator)


lemma storeStep_wf:
  assumes "storeWf st"
  shows "storeWf (storeStep x st)"
proof (cases x)
  case (AddMessage msg sid now)
  then show ?thesis using assms
    by (auto simp: storeWf_def addMessageToDB_def Let_def)
next
  case (DeleteMessage k)
  then show ?thesis using assms
    by (auto simp: storeWf_def deleteMessageFromDB_def storeDelete_def distinct_map_filter)
next
  case (ClearAll sid)
  then show ?thesis using assms
    by (auto simp: storeWf_def clearAllMessages_def clearCursor_records
        clearCursor_keyGenerator distinct_map_filter)
qed

lemma storeRun_wf: "storeWf st \<Longrightarrow> storeWf (storeRun xs st)"
  by (induction xs arbitrary: st) (auto intro: storeStep_wf)

lemma emptyStore_wf: "storeWf emptyStore"
  by (simp add: storeWf_def emptyStore_def)

lemma storeRun_owned:
  assumes "key < keyGenerator st" "\<forall>m\<in>set (records st). sm_id m = key \<longrightarrow> sessionId m = sid"
  shows "\<forall>m\<in>set (records (storeRun xs st)). sm_id m = key \<longrightarrow> sessionId m = sid"
  using assms
proof (induction xs arbitrary: st)
  case Nil
  then show ?case by simp
next
  case (Cons x xs)
  have kg: "key < keyGenerator (storeStep x st)"
    using Cons.prems(1) storeStep_keyGenerator [of st x] by simp
  have own: "\<forall>m\<in>set (records (storeStep x st)). sm_id m = key \<longrightarrow> sessionId m = sid"
    using Cons.prems storeStep_records_subset [of _ x st] by fastforce
  show ?case using Cons.IH [OF kg own] by simp
qed

lemma set_getAll:
  "set (getAllMessagesFromDB sid st) = {m \<in> set (records st). sessionId m = sid}"
  by (auto simp: getAllMessagesFromDB_def)

lemma clearAllMessages_records:
  assumes "storeWf st"
  shows "records (clearAllMessages sid st) = filter (\<lambda>m. sessionId m \<noteq> sid) (records st)"
proof -
  have inj: "inj_on sm_id (set (records st))"
    using assms by (simp add: storeWf_def distinct_map)
  have "sm_id m \<notin> set (map sm_id (filter (\<lambda>m. sessionId m = sid) (records st)))
        \<longleftrightarrow> sessionId m \<noteq> sid" if "m \<in> set (records st)" for m
    using that inj by (auto dest: inj_onD)
  then show ?thesis
    unfolding clearAllMessages_def clearCursor_records
    by (intro filter_cong) auto
qed

text \<open>
  Claim C10. Take any store reached from the empty one, add a message under session
  \<open>A\<close>, and run any further sequence of store operations. For a different session
  \<open>B\<close>, every message that \<^verbatim>\<open>getAllMessagesFromDB(B)\<close> returns is stored under
  \<open>B\<close> and is not the message added under \<open>A\<close>. \<^verbatim>\<open>clearAllMessages(A)\<close> deletes
  exactly the records whose \<^verbatim>\<open>sessionId\<close> is \<open>A\<close>: the records that remain are the
  others, unchanged and in order, what session \<open>B\<close> reads is the same as before, and
  session \<open>A\<close> reads nothing.
\<close>

theorem session_isolation:
  assumes "A \<noteq> B"
  shows "let st0 = storeRun ops0 emptyStore;
             (key, st1) = addMessageToDB message A now st0;
             st2 = storeRun ops st1;
             st3 = clearAllMessages A st2
         in (\<forall>m\<in>set (getAllMessagesFromDB B st2). sessionId m = B \<and> sm_id m \<noteq> key) \<and>
            records st3 = filter (\<lambda>m. sessionId m \<noteq> A) (records st2) \<and>
            getAllMessagesFromDB B st3 = getAllMessagesFromDB B st2 \<and>
            getAllMessagesFromDB A st3 = []"
proof -
  define st0 where "st0 = storeRun ops0 emptyStore"
  define key where "key = fst (addMessageToDB message A now st0)"
  define st1 where "st1 = snd (addMessageToDB message A now st0)"
  define st2 where "st2 = storeRun ops st1"
  define st3 where "st3 = clearAllMessages A st2"
  have wf0: "storeWf st0"
    unfolding st0_def by (intro storeRun_wf emptyStore_wf)
  have st1_step: "st1 = storeStep (AddMessage message A now) st0"
    by (simp add: st1_def)
  have wf1: "storeWf st1"
    unfolding st1_step by (intro storeStep_wf wf0)
  have wf2: "storeWf st2"
    unfolding st2_def by (intro storeRun_wf wf1)
  have key: "key = keyGenerator st0"
    by (simp add: key_def addMessageToDB_def Let_def)
  have kg1: "key < keyGenerator st1"
    by (simp add: key st1_def addMessageToDB_def Let_def)
  have own1: "\<forall>m\<in>set (records st1). sm_id m = key \<longrightarrow> sessionId m = A"
    using wf0 by (auto simp: key st1_def addMessageToDB_def Let_def storeWf_def)
  have own2: "\<forall>m\<in>set (records st2). sm_id m = key \<longrightarrow> sessionId m = A"
    unfolding st2_def by (rule storeRun_owned [OF kg1 own1])
  have part1: "\<forall>m\<in>set (getAllMessagesFromDB B st2). sessionId m = B \<and> sm_id m \<noteq> key"
    using own2 assms by (auto simp: set_getAll)
  have part2: "records st3 = filter (\<lambda>m. sessionId m \<noteq> A) (records st2)"
    unfolding st3_def by (rule clearAllMessages_records [OF wf2])
  have "filter (\<lambda>m. sessionId m = B) (records st3) = filter (\<lambda>m. sessionId m = B) (records st2)"
    unfolding part2 using assms by (auto intro: filter_cong)
  then have part3: "getAllMessagesFromDB B st3 = getAllMessagesFromDB B st2"
    by (simp add: getAllMessagesFromDB_def)
  have part4: "getAllMessagesFromDB A st3 = []"
    by (simp add: getAllMessagesFromDB_def part2)
  have split: "addMessageToDB message A now st0 = (key, st1)"
    by (simp add: key_def st1_def)
  show ?thesis
    using part1 part2 part3 part4
    by (simp add: Let_def split st0_def [symmetric] st2_def [symmetric] st3_def [symmetric])
qed

theorem session_isolation_witness:
  "let st1 = snd (addMessageToDB helloMessage ''A'' 10 emptyStore);
       st2 = storeRun [AddMessage helloMessage ''B'' 5, AddMessage helloMessage ''A'' 7] st1
   in ''A'' \<noteq> ''B'' \<and>
      map sm_id (getAllMessagesFromDB ''A'' st2) = [3, 1] \<and>
      map sm_id (getAllMessagesFromDB ''B'' st2) = [2] \<and>
      map sm_id (getAllMessagesFromDB ''B'' (clearAllMessages ''A'' st2)) = [2] \<and>
      getAllMessagesFromDB ''A'' (clearAllMessages ''A'' st2) = []"
proof -
  have ne: "''A'' \<noteq> ''B''" by simp
  have eval: "map sm_id (getAllMessagesFromDB ''A''
        (storeRun [AddMessage helloMessage ''B'' 5, AddMessage helloMessage ''A'' 7]
          (snd (addMessageToDB helloMessage ''A'' 10 emptyStore)))) = [3, 1]"
     "map sm_id (getAllMessagesFromDB ''B''
        (storeRun [AddMessage helloMessage ''B'' 5, AddMessage helloMessage ''A'' 7]
          (snd (addMessageToDB helloMessage ''A'' 10 emptyStore)))) = [2]"
    by (simp_all add: getAllMessagesFromDB_def addMessageToDB_def emptyStore_def Let_def)
  show ?thesis
    using session_isolation [OF ne, of "[]" helloMessage 10
        "[AddMessage helloMessage ''B'' 5, AddMessage helloMessage ''A'' 7]"] eval
    by (simp add: Let_def split: prod.splits)
qed

section \<open>Proofs: the canvas model\<close>

text \<open>
  The three context calls compose the matrix from the right, and the inverse used by
  \<^verbatim>\<open>drawImage\<close> undoes the matrix.
\<close>

lemma applyMatrix_translate:
  "applyMatrix (ctxTranslate tx ty M) p = applyMatrix M (fst p + tx, snd p + ty)"
  by (simp add: applyMatrix_def ctxTranslate_def algebra_simps)

lemma applyMatrix_scale:
  "applyMatrix (ctxScale sx sy M) p = applyMatrix M (sx * fst p, sy * snd p)"
  by (simp add: applyMatrix_def ctxScale_def algebra_simps)

lemma applyMatrix_rotate:
  "applyMatrix (ctxRotate angle M) p =
     applyMatrix M (fst p * cos angle - snd p * sin angle, fst p * sin angle + snd p * cos angle)"
  by (simp add: applyMatrix_def ctxRotate_def algebra_simps)

lemma unapply_applyMatrix:
  assumes "m_a M * m_d M - m_b M * m_c M \<noteq> 0"
  shows "unapplyMatrix M (applyMatrix M p) = Some p"
proof -
  define det where "det = m_a M * m_d M - m_b M * m_c M"
  have x: "m_d M * (m_a M * fst p + m_c M * snd p) - m_c M * (m_b M * fst p + m_d M * snd p)
      = det * fst p"
    and y: "m_a M * (m_b M * fst p + m_d M * snd p) - m_b M * (m_a M * fst p + m_c M * snd p)
      = det * snd p"
    by (simp_all add: det_def algebra_simps)
  show ?thesis
    using assms
    by (simp add: unapplyMatrix_def applyMatrix_def Let_def x y det_def [symmetric])
qed

section \<open>Proofs: double arithmetic and fit to container\<close>

lemma roundEven_close: "\<bar>of_int (roundEven y) - y\<bar> \<le> 1 / 2"
proof -
  have "of_int \<lfloor>y\<rfloor> \<le> y" "y < of_int \<lfloor>y\<rfloor> + 1" by linarith+
  then show ?thesis
    by (auto simp: roundEven_def Let_def)
qed

lemma fl_zero: "fl 0 = 0"
  by (simp add: fl_def)

lemma fl_error: "\<bar>fl x - x\<bar> \<le> \<bar>x\<bar> / 2 ^ 53"
proof (cases "x = 0")
  case True
  then show ?thesis by (simp add: fl_def)
next
  case False
  define e where "e = \<lfloor>log 2 \<bar>x\<bar>\<rfloor>"
  define s :: real where "s = 2 powr (of_int e - 52)"
  have s: "0 < s" by (simp add: s_def)
  have flx: "fl x = of_int (roundEven (x / s)) * s"
    using False by (simp add: fl_def Let_def s_def e_def)
  have "fl x - x = (of_int (roundEven (x / s)) - x / s) * s"
    using s by (simp add: flx field_simps)
  then have "\<bar>fl x - x\<bar> = \<bar>of_int (roundEven (x / s)) - x / s\<bar> * s"
    using s by (simp add: abs_mult)
  also have "\<dots> \<le> 1 / 2 * s"
    using roundEven_close [of "x / s"] s by (intro mult_right_mono) auto
  finally have err: "\<bar>fl x - x\<bar> \<le> s / 2" by simp
  have "of_int e \<le> log 2 \<bar>x\<bar>" by (simp add: e_def)
  then have "2 powr of_int e \<le> 2 powr log 2 \<bar>x\<bar>"
    by simp
  then have pw: "2 powr of_int e \<le> \<bar>x\<bar>"
    using False by simp
  have "s = 2 powr of_int e * 2 powr (- 52)"
    by (simp add: s_def powr_diff powr_minus field_simps)
  also have "2 powr (- 52 :: real) = 1 / 2 ^ 52"
    by (simp add: powr_minus powr_realpow [symmetric] field_simps)
  finally have "s / 2 = 2 powr of_int e / 2 ^ 53" by simp
  also have "\<dots> \<le> \<bar>x\<bar> / 2 ^ 53"
    using pw by (simp add: divide_right_mono)
  finally show ?thesis using err by linarith
qed

lemma fl_upper: "fl x \<le> x + \<bar>x\<bar> / 2 ^ 53"
  and fl_lower: "x - \<bar>x\<bar> / 2 ^ 53 \<le> fl x"
  using fl_error [of x] by linarith+

lemma fl_pos: "0 < x \<Longrightarrow> 0 < fl x"
proof -
  assume x: "0 < x"
  have "x / 2 ^ 53 < x" using x by (simp add: field_simps)
  then show "0 < fl x" using fl_lower [of x] x by simp
qed

lemma fl_nonneg: "0 \<le> x \<Longrightarrow> 0 \<le> fl x"
  using fl_pos [of x] fl_zero by (cases "x = 0") auto

lemma fl_eval:
  assumes lo: "2 ^ k \<le> x" and hi: "x < 2 ^ (k + 1)" and k: "k \<le> 52"
  shows "fl x = of_int (roundEven (x * 2 ^ (52 - k))) / 2 ^ (52 - k)"
proof -
  have x: "0 < x" using lo by (smt (verit) zero_less_power)
  have "2 powr real k \<le> x" "x < 2 powr (real k + 1)"
    using lo hi by (simp_all add: powr_realpow powr_add)
  then have "real k \<le> log 2 x" "log 2 x < real k + 1"
    using x by (simp_all add: le_log_iff log_less_iff)
  then have e: "\<lfloor>log 2 x\<rfloor> = int k"
    by (simp add: floor_eq_iff)
  have "(2::real) powr (of_int (int k) - 52) = 2 powr (- real (52 - k))"
    using k by (simp add: of_nat_diff)
  also have "\<dots> = 1 / 2 ^ (52 - k)"
    by (simp add: powr_minus powr_realpow field_simps)
  finally have s: "(2::real) powr (of_int (int k) - 52) = 1 / 2 ^ (52 - k)" .
  have ax: "\<bar>x\<bar> = x" using x by simp
  have "fl x = of_int (roundEven (x / (1 / 2 ^ (52 - k)))) * (1 / 2 ^ (52 - k))"
    unfolding fl_def Let_def ax e s using x by simp
  then show ?thesis by simp
qed

lemma fl_small_values:
  "fl 1 = 1" "fl 3 = 3" "fl 4 = 4" "fl 7 = 7" "fl 29 = 29" "fl 128 = 128" "fl 384 = 384"
  "fl 512 = 512"
proof -
  show "fl 1 = 1" using fl_eval [of 0 1] by (simp add: roundEven_def)
  show "fl 3 = 3" using fl_eval [of 1 3] by (simp add: roundEven_def)
  show "fl 4 = 4" using fl_eval [of 2 4] by (simp add: roundEven_def)
  show "fl 7 = 7" using fl_eval [of 2 7] by (simp add: roundEven_def)
  show "fl 29 = 29" using fl_eval [of 4 29] by (simp add: roundEven_def)
  show "fl 128 = 128" using fl_eval [of 7 128] by (simp add: roundEven_def)
  show "fl 384 = 384" using fl_eval [of 8 384] by (simp add: roundEven_def)
  show "fl 512 = 512" using fl_eval [of 9 512] by (simp add: roundEven_def)
qed

lemma fl_29_7: "fl (29 / 7) = 4664442471205157 / 2 ^ 50"
proof -
  have "roundEven (29 / 7 * 2 ^ 50) = 4664442471205157"
    by (simp add: roundEven_def Let_def)
  then show ?thesis
    using fl_eval [of 2 "29 / 7"] by simp
qed

lemma fl_7_times: "fl (7 * (4664442471205157 / 2 ^ 50)) = 29 + 1 / 2 ^ 48"
proof -
  have "roundEven (7 * (4664442471205157 / 2 ^ 50) * 2 ^ 48) = 8162774324609025"
    by (simp add: roundEven_def Let_def)
  then show ?thesis
    using fl_eval [of 4 "7 * (4664442471205157 / 2 ^ 50)"] by simp
qed

lemma fl_3_times: "fl (3 * (4664442471205157 / 2 ^ 50)) = 6996663706807736 / 2 ^ 49"
proof -
  have "roundEven (3 * (4664442471205157 / 2 ^ 50) * 2 ^ 49) = 6996663706807736"
    by (simp add: roundEven_def Let_def)
  then show ?thesis
    using fl_eval [of 3 "3 * (4664442471205157 / 2 ^ 50)"] by simp
qed


lemma rounded_trig_zero: "roundedCos 0 = 1" "roundedSin 0 = 0"
  by (simp_all add: roundedCos_def roundedSin_def fl_small_values fl_zero)

lemma renderLayout_7_3:
  "renderLayout roundedCos roundedSin 7 3 0 1 69 424 =
     Some \<lparr>rotatedWidth = 7, rotatedHeight = 3,
           displayScale = 4664442471205157 / 2 ^ 50,
           canvasWidth = 29 + 1 / 2 ^ 48,
           canvasHeight = 6996663706807736 / 2 ^ 49\<rparr>"
proof -
  have rad: "fl (fl (0 * fl pi) / 180) = 0"
    by (simp add: fl_zero)
  have iw: "fl (real 7 * 1) = 7" and ih: "fl (real 3 * 1) = 3"
    by (simp_all add: fl_small_values)
  have rw: "fl (fl (7 * \<bar>roundedCos 0\<bar>) + fl (3 * \<bar>roundedSin 0\<bar>)) = 7"
    and rh: "fl (fl (7 * \<bar>roundedSin 0\<bar>) + fl (3 * \<bar>roundedCos 0\<bar>)) = 3"
    by (simp_all add: rounded_trig_zero fl_small_values fl_zero)
  have mw: "fl (69 - 40) = 29" and mh: "fl (424 - 40) = 384"
    by (simp_all add: fl_small_values)
  have q: "fl (384 / 3) = 128"
    by (simp add: fl_small_values)
  have m: "min (4664442471205157 / 2 ^ 50) (128::real) = 4664442471205157 / 2 ^ 50"
    by simp
  have nz: "\<not> ((7::real) = 0 \<or> (3::real) = 0)"
    by simp
  show ?thesis
    unfolding renderLayout_def Let_def rad iw ih rw rh mw mh fl_29_7 q m fl_7_times fl_3_times
    using nz by (simp only: if_False)
qed

lemma double_fit:
  assumes rw: "0 < rw" and ds: "ds \<le> fl (a / rw)"
  shows "rw * ds \<le> a + \<bar>a\<bar> / 2 ^ 53" and "fl (rw * ds) \<le> a + \<bar>a\<bar> / 2 ^ 51"
proof -
  define u :: real where "u = 1 / 2 ^ 53"
  have u: "0 < u" "u < 1" "4 * u = 1 / 2 ^ 51" "u * u \<le> u"
    by (simp_all add: u_def)
  have "fl (a / rw) \<le> a / rw + \<bar>a / rw\<bar> * u"
    using fl_upper [of "a / rw"] by (simp add: u_def)
  then have "ds \<le> a / rw + \<bar>a / rw\<bar> * u" using ds by linarith
  then have "rw * ds \<le> rw * (a / rw + \<bar>a / rw\<bar> * u)"
    using rw by (intro mult_left_mono) auto
  also have "\<dots> = a + \<bar>a\<bar> * u"
    using rw by (simp add: algebra_simps abs_divide)
  finally have z: "rw * ds \<le> a + \<bar>a\<bar> * u" .
  then show "rw * ds \<le> a + \<bar>a\<bar> / 2 ^ 53" by (simp add: u_def)
  define z where "z = rw * ds"
  have fz: "fl z \<le> z + \<bar>z\<bar> * u"
    using fl_upper [of z] by (simp add: u_def)
  have zb: "z \<le> a + \<bar>a\<bar> * u" using z by (simp add: z_def)
  have "fl z \<le> a + \<bar>a\<bar> * (4 * u)"
  proof (cases "0 \<le> z")
    case True
    have a: "0 \<le> a"
    proof (rule ccontr)
      assume "\<not> 0 \<le> a"
      then have "a < 0" by simp
      then have "a + \<bar>a\<bar> * u = a * (1 - u)" by (simp add: algebra_simps)
      moreover have "a * (1 - u) < 0" using \<open>a < 0\<close> u by (simp add: mult_neg_pos)
      ultimately show False using zb True by linarith
    qed
    have "fl z \<le> z * (1 + u)" using fz True by (simp add: algebra_simps)
    also have "\<dots> \<le> (a + a * u) * (1 + u)"
      using zb a u by (intro mult_right_mono) auto
    also have "\<dots> = a + a * (2 * u + u * u)" by (simp add: algebra_simps)
    also have "\<dots> \<le> a + a * (4 * u)"
      using a u by (intro add_left_mono mult_left_mono) auto
    finally show ?thesis using a by simp
  next
    case False
    then have zn: "z < 0" by simp
    have f1: "fl z \<le> z * (1 - u)" using fz zn by (simp add: algebra_simps)
    show ?thesis
    proof (cases "0 \<le> a")
      case True
      have "z * (1 - u) \<le> 0" using zn u by (simp add: mult_le_0_iff)
      moreover have "0 \<le> \<bar>a\<bar> * (4 * u)" using u by simp
      ultimately show ?thesis using f1 True by linarith
    next
      case False
      then have an: "a < 0" by simp
      have "z \<le> a * (1 - u)" using zb an by (simp add: algebra_simps)
      then have "z * (1 - u) \<le> a * (1 - u) * (1 - u)"
        using u by (intro mult_right_mono) auto
      also have "\<dots> = a + (- a) * (2 * u - u * u)" by (simp add: algebra_simps)
      also have "\<dots> \<le> a + (- a) * (4 * u)"
      proof -
        have "0 \<le> u * u" by simp
        then have "2 * u - u * u \<le> 4 * u" using u(1) by linarith
        then show ?thesis
          using an by (intro add_left_mono mult_left_mono) auto
      qed
      finally show ?thesis using f1 an by simp
    qed
  qed
  then show "fl (rw * ds) \<le> a + \<bar>a\<bar> / 2 ^ 51"
    using u(3) by (simp add: z_def)
qed

lemma rotated_extent_pos:
  assumes "0 < w" "0 < h" "c \<noteq> 0 \<or> s \<noteq> 0"
  shows "0 < fl (fl (w * \<bar>c\<bar>) + fl (h * \<bar>s\<bar>))"
proof -
  have nn: "0 \<le> fl (w * \<bar>c\<bar>)" "0 \<le> fl (h * \<bar>s\<bar>)"
    using assms by (intro fl_nonneg; simp)+
  have "0 < fl (w * \<bar>c\<bar>) \<or> 0 < fl (h * \<bar>s\<bar>)"
  proof (cases "c \<noteq> 0")
    case True
    then have "0 < w * \<bar>c\<bar>" using assms by simp
    then show ?thesis using fl_pos by blast
  next
    case False
    then have "s \<noteq> 0" using assms by simp
    then have "0 < h * \<bar>s\<bar>" using assms by simp
    then show ?thesis using fl_pos by blast
  qed
  then have "0 < fl (w * \<bar>c\<bar>) + fl (h * \<bar>s\<bar>)" using nn by linarith
  then show ?thesis by (rule fl_pos)
qed

text \<open>
  Claim C4 (as amended). For an image of positive natural size, any rotation and a
  positive uniform scale (and a platform cosine and sine that are not both zero at the
  angle), \<^verbatim>\<open>renderCanvas\<close> computes a layout in double arithmetic: the rotated width is
  scaled width times \<open>|cos|\<close> plus scaled height times \<open>|sin|\<close> with every operation
  rounded, and symmetrically for the height. The display scale times the rotated extent
  is at most the container size minus the margin of 40 up to rounding only: the exact
  product of the two doubles exceeds the computed container size minus 40 by at most
  its \<open>2\<close> to the \<open>-53\<close> part, and the product that the code computes, the canvas size,
  by at most its \<open>2\<close> to the \<open>-51\<close> part.
\<close>

theorem fit_to_container:
  assumes size: "0 < nw" "0 < nh" and uscale: "0 < uscale"
    and trig: "mathCos (fl (fl (rot * fl pi) / 180)) \<noteq> 0 \<or>
               mathSin (fl (fl (rot * fl pi) / 180)) \<noteq> 0"
  shows "\<exists>L. renderLayout mathCos mathSin nw nh rot uscale containerWidth containerHeight =
           Some L \<and>
     rotatedWidth L =
       fl (fl (fl (real nw * uscale) * \<bar>mathCos (fl (fl (rot * fl pi) / 180))\<bar>) +
           fl (fl (real nh * uscale) * \<bar>mathSin (fl (fl (rot * fl pi) / 180))\<bar>)) \<and>
     rotatedHeight L =
       fl (fl (fl (real nw * uscale) * \<bar>mathSin (fl (fl (rot * fl pi) / 180))\<bar>) +
           fl (fl (real nh * uscale) * \<bar>mathCos (fl (fl (rot * fl pi) / 180))\<bar>)) \<and>
     canvasWidth L = fl (rotatedWidth L * displayScale L) \<and>
     canvasHeight L = fl (rotatedHeight L * displayScale L) \<and>
     rotatedWidth L * displayScale L \<le>
       fl (containerWidth - 40) + \<bar>fl (containerWidth - 40)\<bar> / 2 ^ 53 \<and>
     rotatedHeight L * displayScale L \<le>
       fl (containerHeight - 40) + \<bar>fl (containerHeight - 40)\<bar> / 2 ^ 53 \<and>
     canvasWidth L \<le> fl (containerWidth - 40) + \<bar>fl (containerWidth - 40)\<bar> / 2 ^ 51 \<and>
     canvasHeight L \<le> fl (containerHeight - 40) + \<bar>fl (containerHeight - 40)\<bar> / 2 ^ 51 \<and>
     \<bar>fl (containerWidth - 40) - (containerWidth - 40)\<bar> \<le> \<bar>containerWidth - 40\<bar> / 2 ^ 53 \<and>
     \<bar>fl (containerHeight - 40) - (containerHeight - 40)\<bar> \<le> \<bar>containerHeight - 40\<bar> / 2 ^ 53"
proof -
  define rad where "rad = fl (fl (rot * fl pi) / 180)"
  define iw where "iw = fl (real nw * uscale)"
  define ih where "ih = fl (real nh * uscale)"
  define rw where "rw = fl (fl (iw * \<bar>mathCos rad\<bar>) + fl (ih * \<bar>mathSin rad\<bar>))"
  define rh where "rh = fl (fl (iw * \<bar>mathSin rad\<bar>) + fl (ih * \<bar>mathCos rad\<bar>))"
  define mw where "mw = fl (containerWidth - 40)"
  define mh where "mh = fl (containerHeight - 40)"
  define ds where "ds = min (fl (mw / rw)) (fl (mh / rh))"
  have i: "0 < iw" "0 < ih"
    unfolding iw_def ih_def using size uscale by (intro fl_pos; simp)+
  have t: "mathCos rad \<noteq> 0 \<or> mathSin rad \<noteq> 0" "mathSin rad \<noteq> 0 \<or> mathCos rad \<noteq> 0"
    using trig by (auto simp: rad_def)
  have pos: "0 < rw" "0 < rh"
    unfolding rw_def rh_def
    by (rule rotated_extent_pos [OF i t(1)], rule rotated_extent_pos [OF i t(2)])
  have L: "renderLayout mathCos mathSin nw nh rot uscale containerWidth containerHeight =
      Some \<lparr>rotatedWidth = rw, rotatedHeight = rh, displayScale = ds,
            canvasWidth = fl (rw * ds), canvasHeight = fl (rh * ds)\<rparr>"
    using pos
    unfolding renderLayout_def Let_def rad_def [symmetric] iw_def [symmetric]
      ih_def [symmetric] rw_def [symmetric] rh_def [symmetric] mw_def [symmetric]
      mh_def [symmetric] ds_def [symmetric]
    by simp
  have dw: "ds \<le> fl (mw / rw)" and dh: "ds \<le> fl (mh / rh)"
    by (simp_all add: ds_def)
  note w = double_fit [OF pos(1) dw]
  note h = double_fit [OF pos(2) dh]
  have ew: "\<bar>mw - (containerWidth - 40)\<bar> \<le> \<bar>containerWidth - 40\<bar> / 2 ^ 53"
    and eh: "\<bar>mh - (containerHeight - 40)\<bar> \<le> \<bar>containerHeight - 40\<bar> / 2 ^ 53"
    unfolding mw_def mh_def by (rule fl_error)+
  show ?thesis
    unfolding L rad_def [symmetric] iw_def [symmetric] ih_def [symmetric]
      mw_def [symmetric] mh_def [symmetric]
    using w h ew eh
    by (simp add: rw_def rh_def)
qed

theorem fit_to_container_witness:
  "\<exists>L. renderLayout roundedCos roundedSin 7 3 0 1 69 424 = Some L \<and>
       canvasWidth L \<le> 29 + 29 / 2 ^ 51 \<and> canvasHeight L \<le> 384 + 384 / 2 ^ 51"
proof -
  have trig: "roundedCos (fl (fl (0 * fl pi) / 180)) \<noteq> 0 \<or>
              roundedSin (fl (fl (0 * fl pi) / 180)) \<noteq> 0"
    by (simp add: fl_zero rounded_trig_zero)
  have mw: "fl (69 - 40) = 29" and mh: "fl (424 - 40) = 384"
    by (simp_all add: fl_small_values)
  from fit_to_container [of 7 3 1 roundedCos 0 roundedSin 69 424, OF _ _ _ trig]
  show ?thesis
    unfolding mw mh by auto
qed

text \<open>
  For an image of 7 by 3 in a container 69 wide, the product of display scale and
  rotated width that the code computes is above the container width minus the margin.
\<close>

theorem fit_to_container_counterexample:
  "renderLayout roundedCos roundedSin 7 3 0 1 69 424 \<noteq> None \<and>
   canvasWidth (the (renderLayout roundedCos roundedSin 7 3 0 1 69 424)) = 29 + 1 / 2 ^ 48 \<and>
   displayScale (the (renderLayout roundedCos roundedSin 7 3 0 1 69 424)) *
     rotatedWidth (the (renderLayout roundedCos roundedSin 7 3 0 1 69 424)) = 29 + 3 / 2 ^ 50 \<and>
   \<not> canvasWidth (the (renderLayout roundedCos roundedSin 7 3 0 1 69 424)) \<le> 69 - 40"
  by (simp add: renderLayout_7_3)

section \<open>Proofs: zoom with the mouse wheel\<close>

lemma page_maps_inverse:
  assumes "scale st \<noteq> 0"
  shows "pageShownAt cs im st (pagePointUnder cs im st m) = m"
    and "pagePointUnder cs im st (pageShownAt cs im st p) = p"
  using assms by (simp_all add: pageShownAt_def pagePointUnder_def)

text \<open>
  After a wheel step, the image point that was under the mouse is shown away from the
  mouse by the container centre times \<open>1 - newScale / scale\<close>.
\<close>

lemma handleWheel_page_drift:
  assumes s: "scale v \<noteq> 0" and rect: "containerRect e = Some (rectLeft, rectTop)"
  shows "pageShownAt cs im (handleWheel e v)
           (pagePointUnder cs im v (clientX e - rectLeft, clientY e - rectTop)) =
         (clientX e - rectLeft + fst cs / 2 * (1 - newScaleOf e v / scale v),
          clientY e - rectTop + snd cs / 2 * (1 - newScaleOf e v / scale v))"
proof -
  have v': "handleWheel e v =
      \<lparr>scale = newScaleOf e v,
       position =
         (clientX e - rectLeft - (clientX e - rectLeft - fst (position v)) / scale v *
            newScaleOf e v,
          clientY e - rectTop - (clientY e - rectTop - snd (position v)) / scale v *
            newScaleOf e v)\<rparr>"
    by (simp add: handleWheel_def rect Let_def)
  show ?thesis
    using s by (simp add: v' pageShownAt_def pagePointUnder_def field_simps)
qed

text \<open>
  Claim C5, which the code does not meet. A wheel step of the viewer sets the new
  position from the old scale, the new scale and the mouse position as if the image
  were scaled about the corner of the container. The page scales it about the centre of
  the image, which the container centres, so the image content under the mouse does
  not stay there. In the viewer as it opens, in a container of 1000 by 800 with an
  image of 400 by 300, a wheel step with the mouse at the centre (500, 400) sets scale
  1.2 and position (-100, -80), and the image point (200, 150) that was under the mouse
  is then shown at (400, 320).
\<close>

theorem zoom_focal_point_drift:
  "scale (handleWheel wheelAtCentre viewerExample) = 6 / 5 \<and>
   position (handleWheel wheelAtCentre viewerExample) = (- 100, - 80) \<and>
   pagePointUnder (1000, 800) (400, 300) viewerExample (500, 400) = (200, 150) \<and>
   pageShownAt (1000, 800) (400, 300) viewerExample (200, 150) = (500, 400) \<and>
   pageShownAt (1000, 800) (400, 300) (handleWheel wheelAtCentre viewerExample) (200, 150) =
     (400, 320)"
  by (simp add: handleWheel_def newScaleOf_def wheelAtCentre_def viewerExample_def
      pageShownAt_def pagePointUnder_def Let_def)

section \<open>Proofs: crop box\<close>

lemma includes_simps:
  "handleIncludes h CHR ''n'' \<longleftrightarrow> h \<in> {NW, N, NE}"
  "handleIncludes h CHR ''s'' \<longleftrightarrow> h \<in> {SE, S, SW}"
  "handleIncludes h CHR ''w'' \<longleftrightarrow> h \<in> {NW, SW, W}"
  "h \<noteq> Move \<Longrightarrow> handleIncludes h CHR ''e'' \<longleftrightarrow> h \<in> {NE, E, SE}"
  by (cases h; simp add: handleIncludes_def)+








section \<open>Proofs: bake, crop and zoom\<close>

lemma numberToString_100: "numberToString 100 = ''100''"
  by (simp add: numberToString_def digitChar_def)

lemma canvasSize_real: "canvasSize (real n) = n"
  by (simp add: canvasSize_def)

lemma placed_centre_matrix:
  "ctxScale 1 1 (ctxRotate 0 (ctxTranslate tx ty identityMatrix)) =
     \<lparr>m_a = 1, m_b = 0, m_c = 0, m_d = 1, m_e = tx, m_f = ty\<rparr>"
  by (simp add: ctxScale_def ctxRotate_def ctxTranslate_def identityMatrix_def)

lemma drawImage_in_place:
  assumes "0 \<le> x" "x < real (naturalWidth img)" "0 \<le> y" "y < real (naturalHeight img)"
  shows "drawImage F \<lparr>m_a = 1, m_b = 0, m_c = 0, m_d = 1,
            m_e = real (naturalWidth img) / 2, m_f = real (naturalHeight img) / 2\<rparr> img
          (- (real (naturalWidth img) / 2)) (- (real (naturalHeight img) / 2))
          (real (naturalWidth img)) (real (naturalHeight img)) (x, y) =
         map_option F (pixelAt img (x, y))"
proof -
  have pos: "0 < real (naturalWidth img)" "0 < real (naturalHeight img)"
    using assms by linarith+
  have inv: "unapplyMatrix \<lparr>m_a = 1, m_b = 0, m_c = 0, m_d = 1,
            m_e = real (naturalWidth img) / 2, m_f = real (naturalHeight img) / 2\<rparr> (x, y) =
      Some (x - real (naturalWidth img) / 2, y - real (naturalHeight img) / 2)"
    by (simp add: unapplyMatrix_def)
  show ?thesis
    using assms pos by (simp add: drawImage_def drawImageRect_def inv Let_def)
qed

text \<open>
  Claim C3. With brightness, contrast and saturation at 100, the filter \<^verbatim>\<open>none\<close>,
  rotation 0, uniform scale 1 and no flips, baking a committed image of positive size
  returns an image of the same width and height whose colour at every point of the
  image is the colour of the committed image there. The colour filter is the platform's:
  the theorem takes it that the filter string of the neutral adjustments,
  \<^verbatim>\<open>none brightness(100%) contrast(100%) saturate(100%)\<close>, changes no colour.
\<close>

theorem bake_identity:
  assumes img: "committedImage st = Some img"
    and adj: "brightness st = 100" "contrast st = 100" "saturation st = 100"
      "activeFilter st = ''none''"
    and tr: "rotation st = 0" "uniformScale st = 1" "flipScale st = (1, 1)"
    and size: "0 < naturalWidth img" "0 < naturalHeight img"
    and neutral: "\<forall>c. cssFilter ''none brightness(100%) contrast(100%) saturate(100%)'' c = c"
  shows "\<exists>baked. getBakedImageData cssFilter st = Some baked \<and>
     naturalWidth baked = naturalWidth img \<and>
     naturalHeight baked = naturalHeight img \<and>
     (\<forall>x y. 0 \<le> x \<and> x < real (naturalWidth img) \<and> 0 \<le> y \<and> y < real (naturalHeight img) \<longrightarrow>
        pixelAt baked (x, y) = pixelAt img (x, y))"
proof -
  define F where "F = cssFilter (activeFilter st @ '' '' @ adjustmentFilters st)"
  have "activeFilter st @ '' '' @ adjustmentFilters st =
      ''none brightness(100%) contrast(100%) saturate(100%)''"
    by (simp add: adj adjustmentFilters_def numberToString_100)
  then have F: "F c = c" for c
    using neutral by (simp add: F_def)
  then have mapF: "map_option F v = v" for v
    by (cases v) simp_all
  have baked: "getBakedImageData cssFilter st =
      Some (canvasImage (naturalWidth img) (naturalHeight img)
        (drawImage F \<lparr>m_a = 1, m_b = 0, m_c = 0, m_d = 1,
            m_e = real (naturalWidth img) / 2, m_f = real (naturalHeight img) / 2\<rparr> img
          (- real (naturalWidth img) / 2) (- real (naturalHeight img) / 2)
          (real (naturalWidth img)) (real (naturalHeight img))))"
    using size
    by (simp add: getBakedImageData_def img tr Let_def canvasSize_real placed_centre_matrix
        F_def)
  show ?thesis
    unfolding baked
    by (simp add: canvasImage_def drawImage_in_place mapF)
qed

theorem bake_identity_witness:
  "\<exists>baked. getBakedImageData (\<lambda>s c. c) neutralExample = Some baked \<and>
     naturalWidth baked = 4 \<and> naturalHeight baked = 3 \<and>
     pixelAt baked (5 / 2, 1) = Some (2, 1)"
proof -
  have st: "committedImage neutralExample = Some gridImage"
    "brightness neutralExample = 100" "contrast neutralExample = 100"
    "saturation neutralExample = 100" "activeFilter neutralExample = ''none''"
    "rotation neutralExample = 0" "uniformScale neutralExample = 1"
    "flipScale neutralExample = (1, 1)"
    by (simp_all add: neutralExample_def)
  have size: "0 < naturalWidth gridImage" "0 < naturalHeight gridImage"
    by (simp_all add: gridImage_def)
  have neutral: "\<forall>c::int \<times> int.
      (\<lambda>s c. c) ''none brightness(100%) contrast(100%) saturate(100%)'' c = c"
    by simp
  have px: "pixelAt gridImage (5 / 2, 1) = Some (2, 1)"
    by (simp add: gridImage_def)
  show ?thesis
    using bake_identity [OF st size neutral] px
    by (auto simp: gridImage_def)
qed

lemma reset_fields:
  "brightness (resetTransformsAndAdjustments st) = 100"
  "contrast (resetTransformsAndAdjustments st) = 100"
  "saturation (resetTransformsAndAdjustments st) = 100"
  "rotation (resetTransformsAndAdjustments st) = 0"
  "uniformScale (resetTransformsAndAdjustments st) = 1"
  "flipScale (resetTransformsAndAdjustments st) = (1, 1)"
  "activeFilter (resetTransformsAndAdjustments st) = ''none''"
  "isCropping (resetTransformsAndAdjustments st) = False"
  "cropBox (resetTransformsAndAdjustments st) = None"
  "committedImage (resetTransformsAndAdjustments st) = committedImage st"
  "zoom (resetTransformsAndAdjustments st) = zoom st"
  "panOffset (resetTransformsAndAdjustments st) = panOffset st"
  by (simp_all add: resetTransformsAndAdjustments_def)

lemma canvasSize_pos:
  assumes "1 \<le> v"
  shows "0 < canvasSize v" "real (canvasSize v) \<le> v"
proof -
  have "1 \<le> \<lfloor>v\<rfloor>" using assms by linarith
  then show "0 < canvasSize v" by (simp add: canvasSize_def)
  have "0 \<le> \<lfloor>v\<rfloor>" using assms by linarith
  then have "real (canvasSize v) = of_int \<lfloor>v\<rfloor>" by (simp add: canvasSize_def)
  then show "real (canvasSize v) \<le> v" by linarith
qed

lemma canvasImage_outside:
  "\<not> (0 \<le> fst p \<and> fst p < real w \<and> 0 \<le> snd p \<and> snd p < real h) \<Longrightarrow>
   pixelAt (canvasImage w h picture) p = None"
  by (auto simp add: canvasImage_def)

lemma crop_pixels:
  assumes sw: "1 \<le> sw" and sh: "1 \<le> sh"
    and x: "0 \<le> x" "x < real (canvasSize sw)" and y: "0 \<le> y" "y < real (canvasSize sh)"
    and T: "T = canvasImage tw th picture"
  shows "pixelAt (canvasImage (canvasSize sw) (canvasSize sh)
           (drawImageRect (\<lambda>c. c) identityMatrix T sx sy sw sh 0 0 sw sh)) (x, y) =
         pixelAt T (sx + x, sy + y)"
proof -
  have xs: "x < sw" and ys: "y < sh"
    using canvasSize_pos(2) [OF sw] canvasSize_pos(2) [OF sh] x y by linarith+
  have pos: "0 < sw" "0 < sh" using sw sh by linarith+
  have inv: "unapplyMatrix identityMatrix (x, y) = Some (x, y)"
    by (simp add: unapplyMatrix_def identityMatrix_def)
  have dims: "naturalWidth T = tw" "naturalHeight T = th"
    by (simp_all add: T canvasImage_def)
  have st: "0 \<le> x / sw" "x / sw < 1" "0 \<le> y / sh" "y / sh < 1" "x / sw * sw = x" "y / sh * sh = y"
    using pos x y xs ys by simp_all
  have draw: "drawImageRect (\<lambda>c. c) identityMatrix T sx sy sw sh 0 0 sw sh (x, y) =
      (if 0 \<le> sx + x \<and> sx + x < real tw \<and> 0 \<le> sy + y \<and> sy + y < real th
       then map_option (\<lambda>c. c) (pixelAt T (sx + x, sy + y)) else None)"
    using pos st by (simp add: drawImageRect_def inv Let_def dims)
  have id: "map_option (\<lambda>c. c) v = v" for v :: "'a option"
    by (cases v) simp_all
  have "drawImageRect (\<lambda>c. c) identityMatrix T sx sy sw sh 0 0 sw sh (x, y) =
      pixelAt T (sx + x, sy + y)"
    unfolding draw id
    using canvasImage_outside [of "(sx + x, sy + y)" tw th picture]
    by (auto simp: T)
  then show ?thesis
    using x y by (simp add: canvasImage_def)
qed

lemma handleApplyCrop_loaded:
  assumes "committedImage st = Some img" "cropBox st = Some box"
    and "1 \<le> cb_width box * scaleBetweenDisplayAndBaked st img"
    and "1 \<le> cb_height box * scaleBetweenDisplayAndBaked st img"
  shows "handleApplyCrop cssFilter st =
     resetTransformsAndAdjustments
       (st\<lparr>committedImage := Some
          (canvasImage (canvasSize (cb_width box * scaleBetweenDisplayAndBaked st img))
             (canvasSize (cb_height box * scaleBetweenDisplayAndBaked st img))
             (drawImageRect (\<lambda>c. c) identityMatrix (transformedCanvas cssFilter st img)
                (cb_x box * scaleBetweenDisplayAndBaked st img)
                (cb_y box * scaleBetweenDisplayAndBaked st img)
                (cb_width box * scaleBetweenDisplayAndBaked st img)
                (cb_height box * scaleBetweenDisplayAndBaked st img) 0 0
                (cb_width box * scaleBetweenDisplayAndBaked st img)
                (cb_height box * scaleBetweenDisplayAndBaked st img)))\<rparr>)"
  using assms canvasSize_pos(1) [OF assms(3)] canvasSize_pos(1) [OF assms(4)]
  by (simp add: handleApplyCrop_def Let_def)


text \<open>
  What \<^verbatim>\<open>handleApplyCrop\<close> computes for a box that its factor \<open>k\<close> maps to at least
  one pixel each way: the new committed image is the part of \<^verbatim>\<open>transformedCanvas\<close>
  at the mapped box, and the transforms and adjustments are reset.
\<close>

lemma handleApplyCrop_result:
  assumes img: "committedImage st = Some img" and box: "cropBox st = Some box"
    and w: "1 \<le> cb_width box *
              (nativeRotatedWidth st img / (real (baseCanvasWidth st) / zoom st))"
    and h: "1 \<le> cb_height box *
              (nativeRotatedWidth st img / (real (baseCanvasWidth st) / zoom st))"
  shows "let k = nativeRotatedWidth st img / (real (baseCanvasWidth st) / zoom st);
             sx = cb_x box * k;
             sy = cb_y box * k;
             sWidth = cb_width box * k;
             sHeight = cb_height box * k;
             baked = transformedCanvas cssFilter st img;
             st' = handleApplyCrop cssFilter st
         in (\<exists>cropped. committedImage st' = Some cropped \<and>
               naturalWidth cropped = nat \<lfloor>sWidth\<rfloor> \<and>
               naturalHeight cropped = nat \<lfloor>sHeight\<rfloor> \<and>
               (\<forall>x y. 0 \<le> x \<and> x < real (naturalWidth cropped) \<and>
                      0 \<le> y \<and> y < real (naturalHeight cropped) \<longrightarrow>
                      pixelAt cropped (x, y) = pixelAt baked (sx + x, sy + y))) \<and>
            brightness st' = 100 \<and> contrast st' = 100 \<and> saturation st' = 100 \<and>
            rotation st' = 0 \<and> uniformScale st' = 1 \<and> flipScale st' = (1, 1) \<and>
            activeFilter st' = ''none'' \<and> \<not> isCropping st' \<and> cropBox st' = None"
proof -
  define k where "k = scaleBetweenDisplayAndBaked st img"
  have k: "nativeRotatedWidth st img / (real (baseCanvasWidth st) / zoom st) = k"
    by (simp add: k_def scaleBetweenDisplayAndBaked_def)
  define baked where "baked = transformedCanvas cssFilter st img"
  define cropped where "cropped =
      canvasImage (canvasSize (cb_width box * k)) (canvasSize (cb_height box * k))
        (drawImageRect (\<lambda>c. c) identityMatrix baked (cb_x box * k) (cb_y box * k)
           (cb_width box * k) (cb_height box * k) 0 0 (cb_width box * k) (cb_height box * k))"
  have w': "1 \<le> cb_width box * k"
    using w unfolding k .
  have h': "1 \<le> cb_height box * k"
    using h unfolding k .
  have st': "handleApplyCrop cssFilter st =
      resetTransformsAndAdjustments (st\<lparr>committedImage := Some cropped\<rparr>)"
    using handleApplyCrop_loaded [OF img box, of cssFilter] w' h'
    by (simp add: k_def cropped_def baked_def)
  have dims: "naturalWidth cropped = nat \<lfloor>cb_width box * k\<rfloor>"
    "naturalHeight cropped = nat \<lfloor>cb_height box * k\<rfloor>"
    by (simp_all add: cropped_def canvasImage_def canvasSize_def)
  obtain tw th picture where T: "baked = canvasImage tw th picture"
    by (auto simp: baked_def transformedCanvas_def Let_def)
  have px: "pixelAt cropped (x, y) = pixelAt baked (cb_x box * k + x, cb_y box * k + y)"
    if "0 \<le> x" "x < real (naturalWidth cropped)" "0 \<le> y" "y < real (naturalHeight cropped)"
    for x y
    unfolding cropped_def
    using that by (intro crop_pixels [OF w' h' _ _ _ _ T]) (simp_all add: dims canvasSize_def)
  have first: "\<exists>c. committedImage (handleApplyCrop cssFilter st) = Some c \<and>
      naturalWidth c = nat \<lfloor>cb_width box * k\<rfloor> \<and>
      naturalHeight c = nat \<lfloor>cb_height box * k\<rfloor> \<and>
      (\<forall>x y. 0 \<le> x \<and> x < real (naturalWidth c) \<and> 0 \<le> y \<and> y < real (naturalHeight c) \<longrightarrow>
             pixelAt c (x, y) = pixelAt baked (cb_x box * k + x, cb_y box * k + y))"
    using dims px by (intro exI [of _ cropped]) (simp add: st' reset_fields)
  show ?thesis
    unfolding Let_def k baked_def [symmetric]
    using first by (simp add: st' reset_fields)
qed

lemma newScaleOf_bounds: "1 / 10 \<le> newScaleOf e st \<and> newScaleOf e st \<le> 8"
  by (simp add: newScaleOf_def Let_def)

lemma unapplyMatrix_scale:
  assumes "z \<noteq> 0"
  shows "unapplyMatrix (ctxScale z z M) p =
     map_option (\<lambda>q. (fst q / z, snd q / z)) (unapplyMatrix M p)"
proof -
  define det where "det = m_a M * m_d M - m_b M * m_c M"
  have det': "m_a M * z * (m_d M * z) - m_b M * z * (m_c M * z) = det * z * z"
    by (simp add: det_def algebra_simps)
  show ?thesis
  proof (cases "det = 0")
    case True
    then show ?thesis
      using assms by (simp add: unapplyMatrix_def ctxScale_def Let_def det' det_def [symmetric])
  next
    case False
    have "(m_d M * z * x - m_c M * z * y) / (det * z * z) = (m_d M * x - m_c M * y) / det / z"
      and "(m_a M * z * y - m_b M * z * x) / (det * z * z) = (m_a M * y - m_b M * x) / det / z"
      for x y
      using assms False by (simp_all add: field_simps)
    then show ?thesis
      using assms False
      by (simp add: unapplyMatrix_def ctxScale_def Let_def det' det_def [symmetric])
  qed
qed

lemma drawImageRect_scale:
  assumes "z \<noteq> 0"
  shows "drawImageRect F (ctxScale z z M) img sx sy sw sh (dx / z) (dy / z) (dw / z) (dh / z) p =
         drawImageRect F M img sx sy sw sh dx dy dw dh p"
proof (cases "unapplyMatrix M p")
  case None
  then show ?thesis
    by (simp add: drawImageRect_def unapplyMatrix_scale [OF assms])
next
  case (Some q)
  have quot: "(a / z - b / z) / (c / z) = (a - b) / c" for a b c :: real
    using assms by (cases "c = 0") (simp_all add: field_simps)
  have nz: "c / z = 0 \<longleftrightarrow> c = 0" for c :: real
    using assms by simp
  show ?thesis
    unfolding drawImageRect_def unapplyMatrix_scale [OF assms] Some
    by (simp only: option.map option.case fst_conv snd_conv Let_def quot nz)
qed

lemma render_matrix_zoom:
  assumes "z \<noteq> 0"
  shows "ctxScale fx fy (ctxRotate rad (ctxTranslate (cw / (2 * z)) (ch / (2 * z))
           (ctxScale z z (ctxTranslate px py identityMatrix)))) =
         ctxScale z z (ctxScale fx fy (ctxRotate rad (ctxTranslate (cw / 2) (ch / 2)
           (ctxScale 1 1 (ctxTranslate px py identityMatrix)))))"
  using assms
  by (simp add: ctxScale_def ctxRotate_def ctxTranslate_def identityMatrix_def algebra_simps)


lemma render_picture_zoom:
  assumes "z \<noteq> 0"
  shows "drawImage F
           (ctxScale fx fy (ctxRotate rad (ctxTranslate (cw / (2 * z)) (ch / (2 * z))
              (ctxScale z z (ctxTranslate px py identityMatrix)))))
           img (- (iw * ds / z) / 2) (- (ih * ds / z) / 2) (iw * ds / z) (ih * ds / z) =
         drawImage F
           (ctxScale fx fy (ctxRotate rad (ctxTranslate (cw / (2 * 1)) (ch / (2 * 1))
              (ctxScale 1 1 (ctxTranslate px py identityMatrix)))))
           img (- (iw * ds / 1) / 2) (- (ih * ds / 1) / 2) (iw * ds / 1) (ih * ds / 1)"
proof (rule ext)
  fix p
  have args: "- (iw * ds / z) / 2 = (- (iw * ds) / 2) / z"
    "- (ih * ds / z) / 2 = (- (ih * ds) / 2) / z"
    by simp_all
  have "drawImage F
           (ctxScale fx fy (ctxRotate rad (ctxTranslate (cw / (2 * z)) (ch / (2 * z))
              (ctxScale z z (ctxTranslate px py identityMatrix)))))
           img (- (iw * ds / z) / 2) (- (ih * ds / z) / 2) (iw * ds / z) (ih * ds / z) p =
        drawImage F
           (ctxScale fx fy (ctxRotate rad (ctxTranslate (cw / 2) (ch / 2)
              (ctxScale 1 1 (ctxTranslate px py identityMatrix)))))
           img (- (iw * ds) / 2) (- (ih * ds) / 2) (iw * ds) (ih * ds) p"
    unfolding drawImage_def render_matrix_zoom [OF assms] args
    by (rule drawImageRect_scale [OF assms])
  then show "drawImage F
           (ctxScale fx fy (ctxRotate rad (ctxTranslate (cw / (2 * z)) (ch / (2 * z))
              (ctxScale z z (ctxTranslate px py identityMatrix)))))
           img (- (iw * ds / z) / 2) (- (ih * ds / z) / 2) (iw * ds / z) (ih * ds / z) p =
         drawImage F
           (ctxScale fx fy (ctxRotate rad (ctxTranslate (cw / (2 * 1)) (ch / (2 * 1))
              (ctxScale 1 1 (ctxTranslate px py identityMatrix)))))
           img (- (iw * ds / 1) / 2) (- (ih * ds / 1) / 2) (iw * ds / 1) (ih * ds / 1) p"
    by simp
qed

lemma renderCanvas_zoom:
  assumes "zoom st \<noteq> 0"
  shows "renderCanvas cssFilter mathCos mathSin containerWidth containerHeight st =
         renderCanvas cssFilter mathCos mathSin containerWidth containerHeight (st\<lparr>zoom := 1\<rparr>)"
proof -
  have sel: "zoom (st\<lparr>zoom := 1\<rparr>) = 1"
    "committedImage (st\<lparr>zoom := 1\<rparr>) = committedImage st"
    "rotation (st\<lparr>zoom := 1\<rparr>) = rotation st"
    "uniformScale (st\<lparr>zoom := 1\<rparr>) = uniformScale st"
    "flipScale (st\<lparr>zoom := 1\<rparr>) = flipScale st"
    "panOffset (st\<lparr>zoom := 1\<rparr>) = panOffset st"
    "activeFilter (st\<lparr>zoom := 1\<rparr>) = activeFilter st"
    "adjustmentFilters (st\<lparr>zoom := 1\<rparr>) = adjustmentFilters st"
    by (simp_all add: adjustmentFilters_def)
  show ?thesis
    unfolding renderCanvas_def Let_def sel render_picture_zoom [OF assms] ..
qed


lemma zoom_buttons_positive:
  assumes "0 < zoom st"
  shows "0 < zoom (zoomIn st)" "0 < zoom (zoomOut st)"
  using assms by (simp_all add: zoomIn_def zoomOut_def)

lemma zoom_buttons_render:
  assumes "0 < zoom st"
  shows "renderCanvas cssFilter mathCos mathSin cw ch (zoomIn st) =
         renderCanvas cssFilter mathCos mathSin cw ch st"
    and "renderCanvas cssFilter mathCos mathSin cw ch (zoomOut st) =
         renderCanvas cssFilter mathCos mathSin cw ch st"
proof -
  have one: "(zoomIn st)\<lparr>zoom := 1\<rparr> = st\<lparr>zoom := 1\<rparr>"
    "(zoomOut st)\<lparr>zoom := 1\<rparr> = st\<lparr>zoom := 1\<rparr>"
    by (simp_all add: zoomIn_def zoomOut_def)
  have nz: "zoom st \<noteq> 0" "zoom (zoomIn st) \<noteq> 0" "zoom (zoomOut st) \<noteq> 0"
    using assms zoom_buttons_positive [OF assms] by simp_all
  show "renderCanvas cssFilter mathCos mathSin cw ch (zoomIn st) =
        renderCanvas cssFilter mathCos mathSin cw ch st"
    using renderCanvas_zoom [OF nz(2), of cssFilter mathCos mathSin cw ch]
      renderCanvas_zoom [OF nz(1), of cssFilter mathCos mathSin cw ch]
    by (simp add: one)
  show "renderCanvas cssFilter mathCos mathSin cw ch (zoomOut st) =
        renderCanvas cssFilter mathCos mathSin cw ch st"
    using renderCanvas_zoom [OF nz(3), of cssFilter mathCos mathSin cw ch]
      renderCanvas_zoom [OF nz(1), of cssFilter mathCos mathSin cw ch]
    by (simp add: one)
qed

section \<open>Proofs: applying the crop under zoom\<close>

lemma renderLayout_4_3:
  "renderLayout roundedCos roundedSin 4 3 0 1 552 424 =
     Some \<lparr>rotatedWidth = 4, rotatedHeight = 3, displayScale = 128,
           canvasWidth = 512, canvasHeight = 384\<rparr>"
proof -
  have rad: "fl (fl (0 * fl pi) / 180) = 0"
    by (simp add: fl_zero)
  have iw: "fl (real 4 * 1) = 4" and ih: "fl (real 3 * 1) = 3"
    by (simp_all add: fl_small_values)
  have rw: "fl (fl (4 * \<bar>roundedCos 0\<bar>) + fl (3 * \<bar>roundedSin 0\<bar>)) = 4"
    and rh: "fl (fl (4 * \<bar>roundedSin 0\<bar>) + fl (3 * \<bar>roundedCos 0\<bar>)) = 3"
    by (simp_all add: rounded_trig_zero fl_small_values fl_zero)
  have mw: "fl (552 - 40) = 512" and mh: "fl (424 - 40) = 384"
    by (simp_all add: fl_small_values)
  have q: "fl (512 / 4) = 128" "fl (384 / 3) = 128"
    by (simp_all add: fl_small_values)
  have m: "min (128::real) 128 = 128"
    by simp
  have c: "fl (4 * 128) = 512" "fl (3 * 128) = 384"
    by (simp_all add: fl_small_values)
  have nz: "\<not> ((4::real) = 0 \<or> (3::real) = 0)"
    by simp
  show ?thesis
    unfolding renderLayout_def Let_def rad iw ih rw rh mw mh q m c
    using nz by (simp only: if_False)
qed

lemma zoomIn_cap: "zoom ((zoomIn ^^ 10) neutralExample) = 8"
  by (simp add: eval_nat_numeral zoomIn_def neutralExample_def)

lemma zoomedCropExample_display:
  "renderCanvas noFilter roundedCos roundedSin 552 424 zoomedCropExample =
     Some (canvasImage 512 384
       (drawImage (noFilter (activeFilter zoomedCropExample @ '' '' @
            adjustmentFilters zoomedCropExample))
          (ctxScale 1 1 (ctxRotate 0 (ctxTranslate 32 24 (ctxScale 8 8
             (ctxTranslate 0 0 identityMatrix)))))
          gridImage (- 32) (- 24) 64 48))"
  by (simp add: renderCanvas_def renderLayout_4_3 Let_def zoomedCropExample_def
      neutralExample_def gridImage_def canvasSize_def adjustmentFilters_def)

lemma zoomedCropExample_display_pixel:
  "pixelAt (the (renderCanvas noFilter roundedCos roundedSin 552 424 zoomedCropExample))
     (256, 192) = Some (2, 1)"
  unfolding zoomedCropExample_display
  by (simp add: canvasImage_def drawImage_def drawImageRect_def unapplyMatrix_def
      ctxScale_def ctxRotate_def ctxTranslate_def identityMatrix_def noFilter_def
      gridImage_def Let_def)

lemma zoomedCropExample_fields:
  "committedImage zoomedCropExample = Some gridImage"
  "cropBox zoomedCropExample = Some \<lparr>cb_x = 0, cb_y = 0, cb_width = 512, cb_height = 384\<rparr>"
  "rotation zoomedCropExample = 0" "flipScale zoomedCropExample = (1, 1)"
  "zoom zoomedCropExample = 8" "baseCanvasWidth zoomedCropExample = 512"
  "naturalWidth gridImage = 4" "naturalHeight gridImage = 3"
  by (simp_all add: zoomedCropExample_def neutralExample_def gridImage_def)

lemma zoomedCropExample_scale: "scaleBetweenDisplayAndBaked zoomedCropExample gridImage = 1 / 16"
  by (simp add: scaleBetweenDisplayAndBaked_def nativeRotatedWidth_def zoomedCropExample_fields)

lemma zoomedCropExample_transformed:
  "transformedCanvas noFilter zoomedCropExample gridImage =
     canvasImage 4 3
       (drawImage (noFilter (adjustmentFilters zoomedCropExample))
          \<lparr>m_a = 1, m_b = 0, m_c = 0, m_d = 1,
           m_e = real (naturalWidth gridImage) / 2, m_f = real (naturalHeight gridImage) / 2\<rparr>
          gridImage (- (real (naturalWidth gridImage) / 2)) (- (real (naturalHeight gridImage) / 2))
          (real (naturalWidth gridImage)) (real (naturalHeight gridImage)))"
  by (simp add: transformedCanvas_def Let_def nativeRotatedWidth_def nativeRotatedHeight_def
      zoomedCropExample_fields placed_centre_matrix canvasSize_def)

lemma zoomedCropExample_transformed_pixel:
  "pixelAt (transformedCanvas noFilter zoomedCropExample gridImage) (5 / 2, 1) = Some (2, 1)"
proof -
  have "drawImage (noFilter (adjustmentFilters zoomedCropExample))
          \<lparr>m_a = 1, m_b = 0, m_c = 0, m_d = 1,
           m_e = real (naturalWidth gridImage) / 2, m_f = real (naturalHeight gridImage) / 2\<rparr>
          gridImage (- (real (naturalWidth gridImage) / 2)) (- (real (naturalHeight gridImage) / 2))
          (real (naturalWidth gridImage)) (real (naturalHeight gridImage)) (5 / 2, 1) =
        map_option (noFilter (adjustmentFilters zoomedCropExample)) (pixelAt gridImage (5 / 2, 1))"
    by (rule drawImage_in_place) (simp_all add: zoomedCropExample_fields)
  moreover have "pixelAt gridImage (5 / 2, 1) = Some (2, 1)"
    by (simp add: gridImage_def)
  ultimately show ?thesis
    by (simp add: zoomedCropExample_transformed canvasImage_def noFilter_def)
qed

lemma zoomedCropExample_crop:
  "naturalWidth (transformedCanvas noFilter zoomedCropExample gridImage) = 4 \<and>
   naturalHeight (transformedCanvas noFilter zoomedCropExample gridImage) = 3 \<and>
   map_option naturalWidth (committedImage (handleApplyCrop noFilter zoomedCropExample)) =
     Some 32 \<and>
   map_option naturalHeight (committedImage (handleApplyCrop noFilter zoomedCropExample)) =
     Some 24 \<and>
   pixelAt (the (committedImage (handleApplyCrop noFilter zoomedCropExample))) (5 / 2, 1) =
     Some (2, 1) \<and>
   pixelAt (the (committedImage (handleApplyCrop noFilter zoomedCropExample))) (16, 12) = None"
proof -
  let ?T = "transformedCanvas noFilter zoomedCropExample gridImage"
  let ?cropped = "canvasImage 32 24
      (drawImageRect (\<lambda>c. c) identityMatrix ?T 0 0 32 24 0 0 32 24)"
  have w: "1 \<le> cb_width \<lparr>cb_x = 0, cb_y = 0, cb_width = 512, cb_height = 384\<rparr> *
      scaleBetweenDisplayAndBaked zoomedCropExample gridImage"
    and h: "1 \<le> cb_height \<lparr>cb_x = 0, cb_y = 0, cb_width = 512, cb_height = 384\<rparr> *
      scaleBetweenDisplayAndBaked zoomedCropExample gridImage"
    by (simp_all add: zoomedCropExample_scale)
  have st: "handleApplyCrop noFilter zoomedCropExample =
      resetTransformsAndAdjustments (zoomedCropExample\<lparr>committedImage := Some ?cropped\<rparr>)"
    using handleApplyCrop_loaded [OF zoomedCropExample_fields(1,2) w h, of noFilter]
    by (simp add: zoomedCropExample_scale canvasSize_def)
  have img: "committedImage (handleApplyCrop noFilter zoomedCropExample) = Some ?cropped"
    by (simp add: st reset_fields)
  have T: "?T = canvasImage 4 3
       (drawImage (noFilter (adjustmentFilters zoomedCropExample))
          \<lparr>m_a = 1, m_b = 0, m_c = 0, m_d = 1,
           m_e = real (naturalWidth gridImage) / 2, m_f = real (naturalHeight gridImage) / 2\<rparr>
          gridImage (- (real (naturalWidth gridImage) / 2)) (- (real (naturalHeight gridImage) / 2))
          (real (naturalWidth gridImage)) (real (naturalHeight gridImage)))"
    by (rule zoomedCropExample_transformed)
  have size: "canvasSize 32 = 32" "canvasSize 24 = 24"
    by (simp_all add: canvasSize_def)
  have px: "pixelAt ?cropped (x, y) = pixelAt ?T (0 + x, 0 + y)"
    if "0 \<le> x" "x < 32" "0 \<le> y" "y < 24" for x y
    using crop_pixels [of 32 24 x y ?T 4 3 _ 0 0, OF _ _ _ _ _ _ T] that
    by (simp add: size)
  have p1: "pixelAt ?cropped (5 / 2, 1) = Some (2, 1)"
    using px [of "5 / 2" 1] by (simp add: zoomedCropExample_transformed_pixel)
  have "pixelAt ?T (16, 12) = None"
    unfolding T by (rule canvasImage_outside) simp
  then have p2: "pixelAt ?cropped (16, 12) = None"
    using px [of 16 12] by simp
  have dims: "naturalWidth ?T = 4" "naturalHeight ?T = 3"
    unfolding T by (simp_all add: canvasImage_def)
  show ?thesis
    using dims p1 p2 by (simp add: img) (simp add: canvasImage_def)
qed

text \<open>
  Claim C6, which the code does not meet when the zoom is not 1. The display canvas has
  the size that the layout gives it and shows the same picture at every zoom, but
  \<^verbatim>\<open>handleApplyCrop\<close> takes as display extent the canvas width divided by the zoom.
  For the committed image of 4 by 3 with neutral adjustments in a container of 552 by
  424, the display canvas is 512 by 384; ten presses of the zoom-in button set the zoom
  to its cap of 8; the point (256, 192) of the display shows the source colour (2, 1).
  The crop box over the whole display canvas should give the whole picture of 4 by 3
  back. The factor is 4 / (512 / 8) = 1 / 16 where the ratio of the native extent to
  the display extent is 4 / 512, so the new committed image is 32 by 24: the picture is
  in its corner of 4 by 3, and it is empty elsewhere, as at its centre (16, 12). All the
  numbers of this example are doubles and every operation on them is exact.
\<close>

theorem crop_apply_zoomed:
  "zoom ((zoomIn ^^ 10) neutralExample) = zoom zoomedCropExample \<and>
   canvasSize (canvasWidth (the (renderLayout roundedCos roundedSin 4 3 0 1 552 424))) =
     baseCanvasWidth zoomedCropExample \<and>
   canvasSize (canvasHeight (the (renderLayout roundedCos roundedSin 4 3 0 1 552 424))) =
     baseCanvasHeight zoomedCropExample \<and>
   cropBox zoomedCropExample =
     Some \<lparr>cb_x = 0, cb_y = 0, cb_width = 512, cb_height = 384\<rparr> \<and>
   pixelAt (the (renderCanvas noFilter roundedCos roundedSin 552 424 zoomedCropExample))
     (256, 192) = Some (2, 1) \<and>
   naturalWidth (transformedCanvas noFilter zoomedCropExample gridImage) = 4 \<and>
   naturalHeight (transformedCanvas noFilter zoomedCropExample gridImage) = 3 \<and>
   scaleBetweenDisplayAndBaked zoomedCropExample gridImage = 1 / 16 \<and>
   map_option naturalWidth (committedImage (handleApplyCrop noFilter zoomedCropExample)) =
     Some 32 \<and>
   map_option naturalHeight (committedImage (handleApplyCrop noFilter zoomedCropExample)) =
     Some 24 \<and>
   pixelAt (the (committedImage (handleApplyCrop noFilter zoomedCropExample))) (5 / 2, 1) =
     Some (2, 1) \<and>
   pixelAt (the (committedImage (handleApplyCrop noFilter zoomedCropExample))) (16, 12) = None"
  using zoomedCropExample_crop
  by (simp add: zoomIn_cap renderLayout_4_3 zoomedCropExample_display_pixel
      zoomedCropExample_scale zoomedCropExample_fields canvasSize_def)
     (simp add: zoomedCropExample_def)

end
